theory Spec2Isabelle
  imports Main "HOL-Library.Word"
begin

unbundle bit_operations_syntax

section \<open>Annotation decoding of runtime/dex/dex_file_annotations.cc\<close>

subsection \<open>Bytes, cursors and ways of not returning\<close>

text \<open>
  The encoded annotations live in the immutable bytes of a dex file. A cursor
  (\<^verbatim>\<open>const uint8_t*\<close>) is an offset into that byte sequence. The source never
  checks a read against the end of the buffer; a read past the end is undefined
  behaviour in C++ and is the outcome \<open>OutOfBounds\<close> here, as are a call through a
  null handle (\<open>NullDereference\<close>) and a read of a union member other than the one
  written last (\<open>InactiveUnionMember\<close>). \<^verbatim>\<open>LOG(FATAL)\<close> and a failed \<^verbatim>\<open>CHECK\<close>
  abort the process. \<open>OutOfFuel\<close> is the only outcome that is
  not one of the program: the recursion of the decoder is bounded by a nesting
  budget, and \<open>OutOfFuel\<close> says that the budget was too small.
\<close>

type_synonym byte = "8 word"
type_synonym cursor = nat

datatype fault =
  LogFatal | CheckFailed | OutOfBounds | NullDereference | InactiveUnionMember | OutOfFuel

type_synonym 'a res = "fault + 'a"

definition read_byte :: "byte list \<Rightarrow> cursor \<Rightarrow> byte res" where
  "read_byte bs pos = (if pos < length bs then Inr (bs ! pos) else Inl OutOfBounds)"

text \<open>
  Modelled from the spec: \<^verbatim>\<open>DecodeUnsignedLeb128\<close> is declared in base/leb128.h,
  outside src/. Unsigned LEB128: seven value bits per byte, least significant group
  first, the high bit of a byte says that another byte follows; a 32-bit value takes
  at most five bytes. \<open>decode_leb k\<close> reads a byte that at most \<open>k\<close> more may follow.
\<close>

fun decode_leb :: "nat \<Rightarrow> byte list \<Rightarrow> cursor \<Rightarrow> (32 word \<times> cursor) res" where
  "decode_leb 0 bs ptr =
     (case read_byte bs ptr of Inl e \<Rightarrow> Inl e
      | Inr cur \<Rightarrow> Inr (ucast cur, ptr + 1))"
| "decode_leb (Suc k) bs ptr =
     (case read_byte bs ptr of Inl e \<Rightarrow> Inl e
      | Inr cur \<Rightarrow>
          if cur > 0x7f then
            (case decode_leb k bs (ptr + 1) of Inl e \<Rightarrow> Inl e
             | Inr (hi, ptr') \<Rightarrow> Inr (ucast (cur AND 0x7f) OR push_bit 7 hi, ptr'))
          else Inr (ucast cur, ptr + 1))"

definition DecodeUnsignedLeb128 :: "byte list \<Rightarrow> cursor \<Rightarrow> (32 word \<times> cursor) res" where
  "DecodeUnsignedLeb128 bs ptr = decode_leb 4 bs ptr"

subsection \<open>The dex file\<close>

text \<open>
  The kinds of an encoded value, named as the enumerators of \<^verbatim>\<open>DexFile\<close> that the
  \<^verbatim>\<open>switch\<close> statements of the source use as case labels.
\<close>

datatype ValueType =
    kDexAnnotationByte | kDexAnnotationShort | kDexAnnotationChar | kDexAnnotationInt
  | kDexAnnotationLong | kDexAnnotationFloat | kDexAnnotationDouble
  | kDexAnnotationString | kDexAnnotationType | kDexAnnotationMethod
  | kDexAnnotationField | kDexAnnotationEnum
  | kDexAnnotationArray | kDexAnnotationAnnotation
  | kDexAnnotationNull | kDexAnnotationBoolean

text \<open>
  Modelled from the spec: class \<^verbatim>\<open>DexFile\<close> is declared in dex/dex_file.h, outside
  src/. The numeric values of its enumerators \<^verbatim>\<open>kDexAnnotation*\<close> are a parameter:
  \<open>value_type_of\<close> maps a tag (the low five bits of a header byte) to the case label
  it equals, and to \<open>None\<close> where the \<^verbatim>\<open>switch\<close> takes its \<^verbatim>\<open>default\<close> branch.
  \<open>GetStringData\<close> is the string table and \<open>GetTypeDescriptor\<close> the descriptor of
  a type index.
\<close>

record DexFile =
  value_type_of :: "byte \<Rightarrow> ValueType option"
  GetStringData :: "32 word \<Rightarrow> string"
  GetTypeDescriptor :: "32 word \<Rightarrow> string"

text \<open>
  Modelled from the spec: \<^verbatim>\<open>kDexAnnotationValueTypeMask\<close> and
  \<^verbatim>\<open>kDexAnnotationValueArgShift\<close> (dex/dex_file.h): the low 5 bits of the header
  byte select the kind, the high 3 bits are \<open>arg\<close>.
\<close>

definition kDexAnnotationValueTypeMask :: byte where
  "kDexAnnotationValueTypeMask = 0x1f"

definition kDexAnnotationValueArgShift :: nat where
  "kDexAnnotationValueArgShift = 5"

text \<open>
  Modelled from the spec: the visibility enumerators of \<^verbatim>\<open>DexFile\<close> (dex/dex_file.h),
  three disjoint values.
\<close>

definition kDexVisibilityBuild :: "32 word" where
  "kDexVisibilityBuild = 0x00"

definition kDexVisibilityRuntime :: "32 word" where
  "kDexVisibilityRuntime = 0x01"

definition kDexVisibilitySystem :: "32 word" where
  "kDexVisibilitySystem = 0x02"

text \<open>
  \<^verbatim>\<open>dex::AnnotationItem\<close>: the fields \<^verbatim>\<open>visibility_\<close> and \<^verbatim>\<open>annotation_\<close> (a name
  cannot end in an underscore here): a visibility byte and the encoded annotation that
  follows it, the bytes from the start of the encoded annotation to the end of the buffer.
\<close>

record AnnotationItem =
  item_visibility :: byte
  item_annotation :: "byte list"

subsection \<open>Values, objects and the external object model\<close>

text \<open>
  Modelled from the spec: \<^verbatim>\<open>Primitive::Type\<close> (primitive.h), \<^verbatim>\<open>mirror::Class\<close>,
  \<^verbatim>\<open>JValue\<close> (jvalue.h) and \<^verbatim>\<open>mirror::Object\<close> are declared outside src/.
  A class is a primitive type, an array class with its component type, or another
  class known by a handle. A \<open>JValue\<close> is the C++ union of the same name, as the value
  that the setter named by the constructor stored last (\<open>JL None\<close> is a null
  reference). An object is one built by the external object model and known by a
  handle, a class, or an array with its slots, which this code fills itself.
\<close>

datatype Primitive =
    kPrimNot | kPrimBoolean | kPrimByte | kPrimChar | kPrimShort | kPrimInt
  | kPrimLong | kPrimFloat | kPrimDouble | kPrimVoid

datatype Class = PrimitiveClass Primitive | ArrayClass Class | ReferenceClass nat

fun GetComponentType :: "Class \<Rightarrow> Class option" where
  "GetComponentType (ArrayClass c) = Some c"
| "GetComponentType _ = None"

fun IsPrimitive :: "Class \<Rightarrow> bool" where
  "IsPrimitive (PrimitiveClass p) = True"
| "IsPrimitive _ = False"

datatype JValue =
    JZ bool | JB "8 word" | JC "16 word" | JS "16 word" | JI "32 word" | JJ "64 word"
  | JL "Object option"
and Object =
    ObjectRef nat
  | ClassObject Class
  | ArrayObject Class "JValue list"

type_synonym ArtMethod = nat
type_synonym ArtField = nat

text \<open>
  \<^verbatim>\<open>DexFile::AnnotationValue\<close>, the fields \<^verbatim>\<open>value_\<close> and \<^verbatim>\<open>type_\<close>. A default
  constructed \<^verbatim>\<open>JValue\<close> is all zero bits; \<^verbatim>\<open>type_\<close> has no initialiser and is
  written by \<^verbatim>\<open>ProcessAnnotationValue\<close> before anything reads it.
\<close>

record AnnotationValue =
  av_value :: JValue
  av_type :: byte

definition new_AnnotationValue :: AnnotationValue where
  "new_AnnotationValue = \<lparr>av_value = JJ 0, av_type = 0\<rparr>"

datatype AnnotationResultStyle = kAllObjects | kPrimitivesOrObjects | kAllRaw

text \<open>
  The state that the decoder changes outside its own variables: the pending exception
  of the current thread, and a log of the calls made to the resolution functions of
  the class linker, kept to state which calls a decode makes.
\<close>

datatype ResolveCall =
    CallResolveString "32 word" | CallResolveType "32 word" | CallResolveMethodId "32 word"
  | CallResolveFieldJLS "32 word" | CallResolveField "32 word"

record World =
  exception :: "Object option"
  resolver_calls :: "ResolveCall list"

text \<open>
  Modelled from the spec: the resolution service. \<^verbatim>\<open>ClassData\<close> bundles the dex file
  with the dex cache and the class loader that the \<^verbatim>\<open>Resolve*\<close> functions of the class
  linker (class_linker.h, outside src/) resolve against. A resolution returns the
  resolved entity, or \<open>Inl exc\<close> when it fails and leaves the exception \<open>exc\<close> pending.
\<close>

record ClassData =
  GetDexFile :: DexFile
  ResolveString :: "32 word \<Rightarrow> Object + Object"
  ResolveType :: "32 word \<Rightarrow> Object + Class"
  ResolveMethodId :: "32 word \<Rightarrow> Object + ArtMethod"
  ResolveFieldJLS :: "32 word \<Rightarrow> Object + ArtField"
  ResolveField :: "32 word \<Rightarrow> Object + ArtField"

text \<open>
  Modelled from the spec: the other collaborators, reached through
  \<^verbatim>\<open>Runtime::Current()\<close>, \<^verbatim>\<open>WellKnownClasses\<close> and the mirror classes, all declared
  outside src/. An allocation or a constructor call returns its object, or \<open>Inl exc\<close>
  when it fails and leaves the exception \<open>exc\<close> pending; \<open>Array_Alloc\<close> returns the
  exception of a failed allocation and \<open>None\<close> when it succeeds (the array is built
  here). \<^verbatim>\<open>IsSdkVersionSetAndAtMost\<close> and the enumerators of \<^verbatim>\<open>SdkVersion\<close> are
  declared in base/sdk_version.h: the target SDK version of the process and the two
  enumerators are parameters, and the version is set when it differs from \<open>kUnset\<close>.
\<close>

record Runtime =
  GetTargetSdkVersion :: "32 word"
  SdkVersion_kUnset :: "32 word"
  SdkVersion_kM :: "32 word"
  IsConstructor :: "ArtMethod \<Rightarrow> bool"
  Constructor_CreateFromArtMethod :: "ArtMethod \<Rightarrow> Object + Object"
  Method_CreateFromArtMethod :: "ArtMethod \<Rightarrow> Object + Object"
  Field_CreateFromArtField :: "ArtField \<Rightarrow> Object + Object"
  GetDeclaringClass :: "ArtField \<Rightarrow> Class"
  EnsureInitialized :: "Class \<Rightarrow> Object option"
  GetObject :: "ArtField \<Rightarrow> Object option"
  Array_Alloc :: "Class \<Rightarrow> 32 word \<Rightarrow> Object option"
  BoxPrimitive :: "Primitive \<Rightarrow> JValue \<Rightarrow> Object option"
  ThrowNewWrappedException :: "string \<Rightarrow> string \<Rightarrow> Object option \<Rightarrow> Object"
  AnnotationMember_array_class :: "Class option"
  Annotation_array_class :: Class
  FindDeclaredVirtualMethodByName :: "Class \<Rightarrow> string \<Rightarrow> ArtMethod option"
  AllocFromModifiedUtf8 :: "string \<Rightarrow> Object + Object"
  ResolveReturnType :: "ArtMethod \<Rightarrow> Object + Class"
  AnnotationMember_init :: "Object \<Rightarrow> Object option \<Rightarrow> Class \<Rightarrow> Object \<Rightarrow> Object + Object"
  createAnnotation :: "Class \<Rightarrow> Object option \<Rightarrow> Object + Object option"

text \<open>
  A call of a collaborator: the result, \<open>None\<close> for \<^verbatim>\<open>nullptr\<close>, and the world with the
  exception of a failed call pending. \<open>resolve\<close> also logs the call.
\<close>

definition service :: "Object + 'a \<Rightarrow> World \<Rightarrow> 'a option \<times> World" where
  "service r w = (case r of Inl exc \<Rightarrow> (None, w\<lparr>exception := Some exc\<rparr>) | Inr x \<Rightarrow> (Some x, w))"

definition resolve :: "ResolveCall \<Rightarrow> Object + 'a \<Rightarrow> World \<Rightarrow> 'a option \<times> World" where
  "resolve c r w = service r (w\<lparr>resolver_calls := resolver_calls w @ [c]\<rparr>)"

subsection \<open>Visibility and the search for an annotation record\<close>

definition IsSdkVersionSetAndAtMost :: "Runtime \<Rightarrow> 32 word \<Rightarrow> 32 word \<Rightarrow> bool" where
  "IsSdkVersionSetAndAtMost rt lhs rhs = (lhs \<noteq> SdkVersion_kUnset rt \<and> lhs \<le> rhs)"

definition IsVisibilityCompatible :: "Runtime \<Rightarrow> 32 word \<Rightarrow> 32 word \<Rightarrow> bool" where
  "IsVisibilityCompatible rt actual expected =
     (if expected = kDexVisibilityRuntime
         \<and> IsSdkVersionSetAndAtMost rt (GetTargetSdkVersion rt) (SdkVersion_kM rt)
      then actual = kDexVisibilityRuntime \<or> actual = kDexVisibilityBuild
      else actual = expected)"

text \<open>
  The loop of \<^verbatim>\<open>SearchAnnotationSet\<close> over the items of the set, in stored order.
  The result is the first matching item, or \<open>None\<close> for \<^verbatim>\<open>nullptr\<close>.
\<close>

fun SearchAnnotationSet ::
  "Runtime \<Rightarrow> DexFile \<Rightarrow> AnnotationItem list \<Rightarrow> string \<Rightarrow> 32 word \<Rightarrow> AnnotationItem option res"
where
  "SearchAnnotationSet rt dex_file [] descriptor visibility = Inr None"
| "SearchAnnotationSet rt dex_file (annotation_item # items) descriptor visibility =
     (if \<not> IsVisibilityCompatible rt (ucast (item_visibility annotation_item)) visibility
      then SearchAnnotationSet rt dex_file items descriptor visibility
      else
        (case DecodeUnsignedLeb128 (item_annotation annotation_item) 0 of Inl e \<Rightarrow> Inl e
         | Inr (type_index, annotation) \<Rightarrow>
             if descriptor = GetTypeDescriptor dex_file type_index
             then Inr (Some annotation_item)
             else SearchAnnotationSet rt dex_file items descriptor visibility))"

subsection \<open>Skipping an encoded value\<close>

text \<open>
  \<^verbatim>\<open>SkipAnnotationValue\<close> returns a \<^verbatim>\<open>bool\<close> and writes the advanced cursor through
  its pointer argument only when it returns \<^verbatim>\<open>true\<close>: the result is the pair of the
  returned flag and the cursor the caller sees afterwards.

  The function calls itself inside its two loops. In \<open>SkipArrayElements\<close>,
  \<open>SkipAnnotationElements\<close> and \<open>SkipAnnotationValue_body\<close> the parameter \<open>self\<close>
  stands for that recursive call; \<open>SkipAnnotationValue_fuel\<close> ties the knot with a
  bound on the nesting depth. The twelve scalar and reference kinds share one branch
  of the \<^verbatim>\<open>switch\<close>, which leaves \<open>width\<close> at \<open>value_arg + 1\<close>.
\<close>

type_synonym skip_fn = "cursor \<Rightarrow> (bool \<times> cursor) res"

fun SkipArrayElements :: "skip_fn \<Rightarrow> nat \<Rightarrow> cursor \<Rightarrow> (bool \<times> cursor) res" where
  "SkipArrayElements self 0 annotation = Inr (True, annotation)"
| "SkipArrayElements self (Suc sz) annotation =
     (case self annotation of Inl e \<Rightarrow> Inl e
      | Inr (ok, annotation') \<Rightarrow>
          if \<not> ok then Inr (False, annotation)
          else SkipArrayElements self sz annotation')"

fun SkipAnnotationElements ::
  "skip_fn \<Rightarrow> byte list \<Rightarrow> nat \<Rightarrow> cursor \<Rightarrow> (bool \<times> cursor) res"
where
  "SkipAnnotationElements self bs 0 annotation = Inr (True, annotation)"
| "SkipAnnotationElements self bs (Suc sz) annotation =
     (case DecodeUnsignedLeb128 bs annotation of Inl e \<Rightarrow> Inl e
      | Inr (element_name_index, annotation') \<Rightarrow>
          (case self annotation' of Inl e \<Rightarrow> Inl e
           | Inr (ok, annotation'') \<Rightarrow>
               if \<not> ok then Inr (False, annotation)
               else SkipAnnotationElements self bs sz annotation''))"

definition SkipAnnotationValue_body :: "skip_fn \<Rightarrow> DexFile \<Rightarrow> byte list \<Rightarrow> skip_fn" where
  "SkipAnnotationValue_body self dex_file bs annotation_ptr =
     (case read_byte bs annotation_ptr of Inl e \<Rightarrow> Inl e
      | Inr header_byte \<Rightarrow>
          let annotation = annotation_ptr + 1;
              value_type = header_byte AND kDexAnnotationValueTypeMask;
              value_arg = drop_bit kDexAnnotationValueArgShift header_byte;
              width = unat value_arg + 1
          in
          (case value_type_of dex_file value_type of
             None \<Rightarrow> Inl LogFatal
           | Some kDexAnnotationArray \<Rightarrow>
               (case DecodeUnsignedLeb128 bs annotation of Inl e \<Rightarrow> Inl e
                | Inr (sz, annotation) \<Rightarrow>
                    (case SkipArrayElements self (unat sz) annotation of
                       Inl e \<Rightarrow> Inl e
                     | Inr (ok, annotation) \<Rightarrow>
                         if \<not> ok then Inr (False, annotation_ptr)
                         else Inr (True, annotation)))
           | Some kDexAnnotationAnnotation \<Rightarrow>
               (case DecodeUnsignedLeb128 bs annotation of Inl e \<Rightarrow> Inl e
                | Inr (type_index, annotation) \<Rightarrow>
                    (case DecodeUnsignedLeb128 bs annotation of Inl e \<Rightarrow> Inl e
                     | Inr (sz, annotation) \<Rightarrow>
                         (case SkipAnnotationElements self bs (unat sz) annotation of
                            Inl e \<Rightarrow> Inl e
                          | Inr (ok, annotation) \<Rightarrow>
                              if \<not> ok then Inr (False, annotation_ptr)
                              else Inr (True, annotation))))
           | Some kDexAnnotationBoolean \<Rightarrow> Inr (True, annotation)
           | Some kDexAnnotationNull \<Rightarrow> Inr (True, annotation)
           | Some _ \<Rightarrow> Inr (True, annotation + width)))"

primrec SkipAnnotationValue_fuel :: "nat \<Rightarrow> DexFile \<Rightarrow> byte list \<Rightarrow> skip_fn" where
  "SkipAnnotationValue_fuel 0 dex_file bs = (\<lambda>annotation_ptr. Inl OutOfFuel)"
| "SkipAnnotationValue_fuel (Suc fuel) dex_file bs =
     SkipAnnotationValue_body (SkipAnnotationValue_fuel fuel dex_file bs) dex_file bs"

text \<open>
  Every level of nesting starts with a header byte inside the buffer, so the depth of
  the recursion at \<open>annotation_ptr\<close> is at most the number of bytes from there to the
  end of the buffer, plus one for the call that reads past the end.
\<close>

definition SkipAnnotationValue :: "DexFile \<Rightarrow> byte list \<Rightarrow> cursor \<Rightarrow> (bool \<times> cursor) res" where
  "SkipAnnotationValue dex_file bs annotation_ptr =
     SkipAnnotationValue_fuel (Suc (length bs - annotation_ptr)) dex_file bs annotation_ptr"

subsection \<open>Finding a named element\<close>

text \<open>
  The \<^verbatim>\<open>while (size != 0)\<close> loop of \<^verbatim>\<open>SearchEncodedAnnotation\<close>. The flag returned by
  \<^verbatim>\<open>SkipAnnotationValue\<close> is ignored by the source.
\<close>

fun SearchEncodedAnnotation_loop ::
  "DexFile \<Rightarrow> byte list \<Rightarrow> string \<Rightarrow> nat \<Rightarrow> cursor \<Rightarrow> cursor option res"
where
  "SearchEncodedAnnotation_loop dex_file bs name 0 annotation = Inr None"
| "SearchEncodedAnnotation_loop dex_file bs name (Suc sz) annotation =
     (case DecodeUnsignedLeb128 bs annotation of Inl e \<Rightarrow> Inl e
      | Inr (element_name_index, annotation) \<Rightarrow>
          if name = GetStringData dex_file element_name_index then Inr (Some annotation)
          else
            (case SkipAnnotationValue dex_file bs annotation of Inl e \<Rightarrow> Inl e
             | Inr (ok, annotation) \<Rightarrow>
                 SearchEncodedAnnotation_loop dex_file bs name sz annotation))"

definition SearchEncodedAnnotation ::
  "DexFile \<Rightarrow> byte list \<Rightarrow> cursor \<Rightarrow> string \<Rightarrow> cursor option res"
where
  "SearchEncodedAnnotation dex_file bs annotation name =
     (case DecodeUnsignedLeb128 bs annotation of Inl e \<Rightarrow> Inl e
      | Inr (type_index, annotation) \<Rightarrow>
          (case DecodeUnsignedLeb128 bs annotation of Inl e \<Rightarrow> Inl e
           | Inr (sz, annotation) \<Rightarrow>
               SearchEncodedAnnotation_loop dex_file bs name (unat sz) annotation))"

subsection \<open>The grammar of encoded values, as the spec gives it\<close>

text \<open>
  The spec's byte-level grammar (its sections 4.1 and 6), written down independently
  of the decoder, to compare the search and the skip with. A value is a header byte
  followed, by kind, by \<open>arg + 1\<close> payload bytes (the twelve scalar and reference
  kinds), by nothing (Boolean and Null), by a varint size and that many values
  (Array), or by a varint type index, a varint element count and that many pairs of
  a varint name index and a value (Annotation). A varint is kept as the bytes that
  encode it. \<open>encode\<close> lays a value out as bytes; \<open>encode_elements\<close> lays out the
  elements of an annotation body.
\<close>

datatype SpecValue =
    SpecScalar byte "byte list"
  | SpecEmpty byte
  | SpecArray byte "byte list" "SpecValue list"
  | SpecAnnotation byte "byte list" "byte list" "(byte list \<times> SpecValue) list"

fun encode :: "SpecValue \<Rightarrow> byte list" where
  "encode (SpecScalar header payload) = header # payload"
| "encode (SpecEmpty header) = [header]"
| "encode (SpecArray header size_bytes values) =
     header # size_bytes @ concat (map encode values)"
| "encode (SpecAnnotation header type_bytes count_bytes elements) =
     header # type_bytes @ count_bytes
       @ concat (map (\<lambda>element. fst element @ encode (snd element)) elements)"

definition encode_elements :: "(byte list \<times> SpecValue) list \<Rightarrow> byte list" where
  "encode_elements elements =
     concat (map (\<lambda>element. fst element @ encode (snd element)) elements)"

text \<open>
  \<open>leb_read\<close> is the number that a complete varint encodes. A value is well formed
  for a dex file when its header byte has the tag of its kind, a scalar has
  \<open>arg + 1\<close> payload bytes, and every varint is complete and every count is the
  number of items that follow.
\<close>

definition leb_read :: "byte list \<Rightarrow> 32 word option" where
  "leb_read leb_bytes =
     (case DecodeUnsignedLeb128 leb_bytes 0 of
        Inl e \<Rightarrow> None
      | Inr (n, ptr) \<Rightarrow> if ptr = length leb_bytes then Some n else None)"

definition spec_kind :: "DexFile \<Rightarrow> byte \<Rightarrow> ValueType option" where
  "spec_kind dex_file header = value_type_of dex_file (header AND 0x1f)"

definition spec_width :: "byte \<Rightarrow> nat" where
  "spec_width header = unat (drop_bit 5 header) + 1"

fun well_formed :: "DexFile \<Rightarrow> SpecValue \<Rightarrow> bool" where
  "well_formed dex_file (SpecScalar header payload) =
     (spec_kind dex_file header \<in> Some `
        {kDexAnnotationByte, kDexAnnotationShort, kDexAnnotationChar, kDexAnnotationInt,
         kDexAnnotationLong, kDexAnnotationFloat, kDexAnnotationDouble,
         kDexAnnotationString, kDexAnnotationType, kDexAnnotationMethod,
         kDexAnnotationField, kDexAnnotationEnum}
      \<and> length payload = spec_width header)"
| "well_formed dex_file (SpecEmpty header) =
     (spec_kind dex_file header = Some kDexAnnotationBoolean
      \<or> spec_kind dex_file header = Some kDexAnnotationNull)"
| "well_formed dex_file (SpecArray header size_bytes values) =
     (spec_kind dex_file header = Some kDexAnnotationArray
      \<and> length values < 2 ^ 32
      \<and> leb_read size_bytes = Some (of_nat (length values))
      \<and> list_all (well_formed dex_file) values)"
| "well_formed dex_file (SpecAnnotation header type_bytes count_bytes elements) =
     (spec_kind dex_file header = Some kDexAnnotationAnnotation
      \<and> leb_read type_bytes \<noteq> None
      \<and> length elements < 2 ^ 32
      \<and> leb_read count_bytes = Some (of_nat (length elements))
      \<and> list_all (\<lambda>element. leb_read (fst element) \<noteq> None
                              \<and> well_formed dex_file (snd element)) elements)"

text \<open>The name of an element, from the bytes of its name index.\<close>

definition spec_element_name :: "DexFile \<Rightarrow> byte list \<Rightarrow> string option" where
  "spec_element_name dex_file name_bytes =
     map_option (GetStringData dex_file) (leb_read name_bytes)"

subsection \<open>Reading numbers\<close>

text \<open>
  Modelled from the spec: \<^verbatim>\<open>DexFile::ReadSignedInt\<close>, \<^verbatim>\<open>ReadUnsignedInt\<close>,
  \<^verbatim>\<open>ReadSignedLong\<close> and \<^verbatim>\<open>ReadUnsignedLong\<close> are defined outside src/. A numeric
  decode reads \<open>width = zwidth + 1\<close> little-endian bytes and sign-extends or
  zero-extends them; with \<open>fill_on_right\<close> (floats and doubles) the bytes read are
  the most significant ones and are shifted left into the full width.
\<close>

fun read_le :: "byte list \<Rightarrow> cursor \<Rightarrow> nat \<Rightarrow> 64 word res" where
  "read_le bs ptr 0 = Inr 0"
| "read_le bs ptr (Suc width) =
     (case read_byte bs ptr of Inl e \<Rightarrow> Inl e
      | Inr b \<Rightarrow>
          (case read_le bs (ptr + 1) width of Inl e \<Rightarrow> Inl e
           | Inr hi \<Rightarrow> Inr (ucast b OR push_bit 8 hi)))"

definition ReadSignedInt :: "byte list \<Rightarrow> cursor \<Rightarrow> nat \<Rightarrow> 32 word res" where
  "ReadSignedInt bs ptr zwidth =
     (case read_le bs ptr (zwidth + 1) of Inl e \<Rightarrow> Inl e
      | Inr v \<Rightarrow> Inr (signed_take_bit ((zwidth + 1) * 8 - 1) (ucast v)))"

definition ReadUnsignedInt :: "byte list \<Rightarrow> cursor \<Rightarrow> nat \<Rightarrow> bool \<Rightarrow> 32 word res" where
  "ReadUnsignedInt bs ptr zwidth fill_on_right =
     (case read_le bs ptr (zwidth + 1) of Inl e \<Rightarrow> Inl e
      | Inr v \<Rightarrow>
          Inr (if fill_on_right then push_bit ((3 - zwidth) * 8) (ucast v) else ucast v))"

definition ReadSignedLong :: "byte list \<Rightarrow> cursor \<Rightarrow> nat \<Rightarrow> 64 word res" where
  "ReadSignedLong bs ptr zwidth =
     (case read_le bs ptr (zwidth + 1) of Inl e \<Rightarrow> Inl e
      | Inr v \<Rightarrow> Inr (signed_take_bit ((zwidth + 1) * 8 - 1) v))"

definition ReadUnsignedLong :: "byte list \<Rightarrow> cursor \<Rightarrow> nat \<Rightarrow> bool \<Rightarrow> 64 word res" where
  "ReadUnsignedLong bs ptr zwidth fill_on_right =
     (case read_le bs ptr (zwidth + 1) of Inl e \<Rightarrow> Inl e
      | Inr v \<Rightarrow> Inr (if fill_on_right then push_bit ((7 - zwidth) * 8) v else v))"

subsection \<open>Decoding an encoded value\<close>

text \<open>
  \<^verbatim>\<open>ProcessAnnotationValue\<close> returns a \<^verbatim>\<open>bool\<close>; its result here is that flag, the
  cursor the caller sees afterwards (written through \<^verbatim>\<open>annotation_ptr\<close> only on the
  way to \<^verbatim>\<open>return true\<close>), the \<^verbatim>\<open>AnnotationValue\<close> the caller passed, as updated, and
  the world. The template parameter \<^verbatim>\<open>kTransactionActive\<close> only selects how an array
  store is recorded and is left out.

  \<open>return_false\<close> is a \<^verbatim>\<open>return false\<close> inside the \<^verbatim>\<open>switch\<close>. \<open>after_switch\<close> is
  the code after the \<^verbatim>\<open>switch\<close>: the cursor moves by \<open>width\<close>, a primitive is boxed
  under \<^verbatim>\<open>kAllObjects\<close>, and the object, if one was set, is stored.
\<close>

type_synonym process_result = "(bool \<times> cursor \<times> AnnotationValue \<times> World) res"

definition return_false :: "cursor \<Rightarrow> AnnotationValue \<Rightarrow> World \<Rightarrow> process_result" where
  "return_false annotation_ptr annotation_value w = Inr (False, annotation_ptr, annotation_value, w)"

definition after_switch ::
  "Runtime \<Rightarrow> AnnotationResultStyle \<Rightarrow> cursor \<Rightarrow> nat \<Rightarrow> AnnotationValue \<Rightarrow> Primitive
     \<Rightarrow> Object option \<Rightarrow> bool \<Rightarrow> World \<Rightarrow> process_result"
where
  "after_switch rt result_style annotation width annotation_value primitive_type
       element_object set_object w =
     (let boxing = (result_style = kAllObjects \<and> primitive_type \<noteq> kPrimVoid);
          element_object =
            (if boxing then BoxPrimitive rt primitive_type (av_value annotation_value)
             else element_object);
          set_object = (if boxing then True else set_object);
          annotation_value =
            (if set_object then annotation_value\<lparr>av_value := JL element_object\<rparr>
             else annotation_value)
      in Inr (True, annotation + width, annotation_value, w))"

text \<open>The branches of the \<^verbatim>\<open>switch\<close> for the primitive kinds, which read a number.\<close>

definition process_primitive ::
  "Runtime \<Rightarrow> AnnotationResultStyle \<Rightarrow> byte list \<Rightarrow> cursor \<Rightarrow> nat \<Rightarrow> AnnotationValue
     \<Rightarrow> World \<Rightarrow> ValueType \<Rightarrow> process_result"
where
  "process_primitive rt result_style bs annotation value_arg annotation_value w value_type =
     (let width = value_arg + 1;
          store = (\<lambda>v primitive_type.
            after_switch rt result_style annotation width (annotation_value\<lparr>av_value := v\<rparr>)
              primitive_type None False w)
      in
      if value_type = kDexAnnotationByte then
        (case ReadSignedInt bs annotation value_arg of Inl e \<Rightarrow> Inl e
         | Inr v \<Rightarrow> store (JB (ucast v)) kPrimByte)
      else if value_type = kDexAnnotationShort then
        (case ReadSignedInt bs annotation value_arg of Inl e \<Rightarrow> Inl e
         | Inr v \<Rightarrow> store (JS (ucast v)) kPrimShort)
      else if value_type = kDexAnnotationChar then
        (case ReadUnsignedInt bs annotation value_arg False of Inl e \<Rightarrow> Inl e
         | Inr v \<Rightarrow> store (JC (ucast v)) kPrimChar)
      else if value_type = kDexAnnotationInt then
        (case ReadSignedInt bs annotation value_arg of Inl e \<Rightarrow> Inl e
         | Inr v \<Rightarrow> store (JI v) kPrimInt)
      else if value_type = kDexAnnotationLong then
        (case ReadSignedLong bs annotation value_arg of Inl e \<Rightarrow> Inl e
         | Inr v \<Rightarrow> store (JJ v) kPrimLong)
      else if value_type = kDexAnnotationFloat then
        (case ReadUnsignedInt bs annotation value_arg True of Inl e \<Rightarrow> Inl e
         | Inr v \<Rightarrow> store (JI v) kPrimFloat)
      else
        (case ReadUnsignedLong bs annotation value_arg True of Inl e \<Rightarrow> Inl e
         | Inr v \<Rightarrow> store (JJ v) kPrimDouble))"

text \<open>
  The branches for the reference kinds. Each reads an index; under \<^verbatim>\<open>kAllRaw\<close> the
  index is the result, otherwise the index is resolved.
\<close>

definition process_String ::
  "ClassData \<Rightarrow> Runtime \<Rightarrow> AnnotationResultStyle \<Rightarrow> byte list \<Rightarrow> cursor \<Rightarrow> cursor \<Rightarrow> nat
     \<Rightarrow> AnnotationValue \<Rightarrow> World \<Rightarrow> process_result"
where
  "process_String klass rt result_style bs annotation_ptr annotation value_arg annotation_value w =
     (case ReadUnsignedInt bs annotation value_arg False of Inl e \<Rightarrow> Inl e
      | Inr index \<Rightarrow>
          if result_style = kAllRaw then
            after_switch rt result_style annotation (value_arg + 1)
              (annotation_value\<lparr>av_value := JI index\<rparr>) kPrimVoid None False w
          else
            (case resolve (CallResolveString index) (ResolveString klass index) w of
               (None, w) \<Rightarrow> return_false annotation_ptr annotation_value w
             | (Some element_object, w) \<Rightarrow>
                 after_switch rt result_style annotation (value_arg + 1) annotation_value
                   kPrimVoid (Some element_object) True w))"

definition process_Type ::
  "ClassData \<Rightarrow> Runtime \<Rightarrow> AnnotationResultStyle \<Rightarrow> byte list \<Rightarrow> cursor \<Rightarrow> cursor \<Rightarrow> nat
     \<Rightarrow> AnnotationValue \<Rightarrow> World \<Rightarrow> process_result"
where
  "process_Type klass rt result_style bs annotation_ptr annotation value_arg annotation_value w =
     (case ReadUnsignedInt bs annotation value_arg False of Inl e \<Rightarrow> Inl e
      | Inr index \<Rightarrow>
          if result_style = kAllRaw then
            after_switch rt result_style annotation (value_arg + 1)
              (annotation_value\<lparr>av_value := JI index\<rparr>) kPrimVoid None False w
          else
            (case resolve (CallResolveType index) (ResolveType klass index) w of
               (Some c, w) \<Rightarrow>
                 after_switch rt result_style annotation (value_arg + 1) annotation_value
                   kPrimVoid (Some (ClassObject c)) True w
             | (None, w) \<Rightarrow>
                 if exception w = None then Inl CheckFailed
                 else if result_style = kAllObjects then
                   (let msg = GetTypeDescriptor (GetDexFile klass) index;
                        w = w\<lparr>exception := Some (ThrowNewWrappedException rt
                               ''Ljava/lang/TypeNotPresentException;'' msg (exception w))\<rparr>;
                        element_object = exception w;
                        w = w\<lparr>exception := None\<rparr>
                    in after_switch rt result_style annotation (value_arg + 1) annotation_value
                         kPrimVoid element_object True w)
                 else return_false annotation_ptr annotation_value w))"

definition process_Method ::
  "ClassData \<Rightarrow> Runtime \<Rightarrow> AnnotationResultStyle \<Rightarrow> byte list \<Rightarrow> cursor \<Rightarrow> cursor \<Rightarrow> nat
     \<Rightarrow> AnnotationValue \<Rightarrow> World \<Rightarrow> process_result"
where
  "process_Method klass rt result_style bs annotation_ptr annotation value_arg annotation_value w =
     (case ReadUnsignedInt bs annotation value_arg False of Inl e \<Rightarrow> Inl e
      | Inr index \<Rightarrow>
          if result_style = kAllRaw then
            after_switch rt result_style annotation (value_arg + 1)
              (annotation_value\<lparr>av_value := JI index\<rparr>) kPrimVoid None False w
          else
            (case resolve (CallResolveMethodId index) (ResolveMethodId klass index) w of
               (None, w) \<Rightarrow> return_false annotation_ptr annotation_value w
             | (Some method, w) \<Rightarrow>
                 (case service (if IsConstructor rt method
                                then Constructor_CreateFromArtMethod rt method
                                else Method_CreateFromArtMethod rt method) w of
                    (None, w) \<Rightarrow> return_false annotation_ptr annotation_value w
                  | (Some element_object, w) \<Rightarrow>
                      after_switch rt result_style annotation (value_arg + 1) annotation_value
                        kPrimVoid (Some element_object) True w)))"

definition process_Field ::
  "ClassData \<Rightarrow> Runtime \<Rightarrow> AnnotationResultStyle \<Rightarrow> byte list \<Rightarrow> cursor \<Rightarrow> cursor \<Rightarrow> nat
     \<Rightarrow> AnnotationValue \<Rightarrow> World \<Rightarrow> process_result"
where
  "process_Field klass rt result_style bs annotation_ptr annotation value_arg annotation_value w =
     (case ReadUnsignedInt bs annotation value_arg False of Inl e \<Rightarrow> Inl e
      | Inr index \<Rightarrow>
          if result_style = kAllRaw then
            after_switch rt result_style annotation (value_arg + 1)
              (annotation_value\<lparr>av_value := JI index\<rparr>) kPrimVoid None False w
          else
            (case resolve (CallResolveFieldJLS index) (ResolveFieldJLS klass index) w of
               (None, w) \<Rightarrow> return_false annotation_ptr annotation_value w
             | (Some field, w) \<Rightarrow>
                 (case service (Field_CreateFromArtField rt field) w of
                    (None, w) \<Rightarrow> return_false annotation_ptr annotation_value w
                  | (Some element_object, w) \<Rightarrow>
                      after_switch rt result_style annotation (value_arg + 1) annotation_value
                        kPrimVoid (Some element_object) True w)))"

definition process_Enum ::
  "ClassData \<Rightarrow> Runtime \<Rightarrow> AnnotationResultStyle \<Rightarrow> byte list \<Rightarrow> cursor \<Rightarrow> cursor \<Rightarrow> nat
     \<Rightarrow> AnnotationValue \<Rightarrow> World \<Rightarrow> process_result"
where
  "process_Enum klass rt result_style bs annotation_ptr annotation value_arg annotation_value w =
     (case ReadUnsignedInt bs annotation value_arg False of Inl e \<Rightarrow> Inl e
      | Inr index \<Rightarrow>
          if result_style = kAllRaw then
            after_switch rt result_style annotation (value_arg + 1)
              (annotation_value\<lparr>av_value := JI index\<rparr>) kPrimVoid None False w
          else
            (case resolve (CallResolveField index) (ResolveField klass index) w of
               (None, w) \<Rightarrow> return_false annotation_ptr annotation_value w
             | (Some enum_field, w) \<Rightarrow>
                 (let field_class = GetDeclaringClass rt enum_field;
                      w = (case EnsureInitialized rt field_class of
                             None \<Rightarrow> w | Some exc \<Rightarrow> w\<lparr>exception := Some exc\<rparr>);
                      element_object = GetObject rt enum_field
                  in after_switch rt result_style annotation (value_arg + 1) annotation_value
                       kPrimVoid element_object True w)))"

text \<open>
  \<^verbatim>\<open>JValue::GetL\<close>, and the store of a decoded element into the new array: a reference
  into an object array, a primitive into the array of its kind. The primitive getters
  read the member that the same decode of the element has written.
\<close>

fun GetL :: "JValue \<Rightarrow> Object option res" where
  "GetL (JL obj) = Inr obj"
| "GetL _ = Inl InactiveUnionMember"

definition store_array_element ::
  "DexFile \<Rightarrow> Class option \<Rightarrow> JValue list \<Rightarrow> nat \<Rightarrow> AnnotationValue \<Rightarrow> JValue list res"
where
  "store_array_element dex_file component_type new_array i new_annotation_value =
     (case component_type of
        None \<Rightarrow> Inl NullDereference
      | Some ct \<Rightarrow>
          if \<not> IsPrimitive ct then
            (case GetL (av_value new_annotation_value) of Inl e \<Rightarrow> Inl e
             | Inr obj \<Rightarrow> Inr (new_array[i := JL obj]))
          else
            (case value_type_of dex_file (av_type new_annotation_value) of
               Some kDexAnnotationByte \<Rightarrow> Inr (new_array[i := av_value new_annotation_value])
             | Some kDexAnnotationShort \<Rightarrow> Inr (new_array[i := av_value new_annotation_value])
             | Some kDexAnnotationChar \<Rightarrow> Inr (new_array[i := av_value new_annotation_value])
             | Some kDexAnnotationInt \<Rightarrow> Inr (new_array[i := av_value new_annotation_value])
             | Some kDexAnnotationLong \<Rightarrow> Inr (new_array[i := av_value new_annotation_value])
             | Some kDexAnnotationFloat \<Rightarrow> Inr (new_array[i := av_value new_annotation_value])
             | Some kDexAnnotationDouble \<Rightarrow> Inr (new_array[i := av_value new_annotation_value])
             | Some kDexAnnotationBoolean \<Rightarrow> Inr (new_array[i := av_value new_annotation_value])
             | _ \<Rightarrow> Inl LogFatal))"

text \<open>
  \<^verbatim>\<open>ProcessAnnotationValue\<close>, \<^verbatim>\<open>ProcessEncodedAnnotation\<close> and
  \<^verbatim>\<open>CreateAnnotationMember\<close> call each other. As for the skip, the parameter \<open>self\<close>
  stands for the recursive call of \<^verbatim>\<open>ProcessAnnotationValue\<close>, and
  \<open>ProcessAnnotationValue_fuel\<close> ties the knot with a bound on the nesting depth.
  \<open>ProcessArrayElements\<close> is the loop over the elements of an array (\<open>sz\<close> elements
  left, the next one stored at index \<open>i\<close>), \<open>CreateAnnotationMembers\<close> the loop of
  \<^verbatim>\<open>ProcessEncodedAnnotation\<close>, collecting the members. \<^verbatim>\<open>ProcessEncodedAnnotation\<close>
  and \<^verbatim>\<open>CreateAnnotationMember\<close> move the caller's cursor also when they return
  \<^verbatim>\<open>nullptr\<close>.
\<close>

type_synonym process_fn =
  "cursor \<Rightarrow> AnnotationValue \<Rightarrow> Class option \<Rightarrow> AnnotationResultStyle \<Rightarrow> World \<Rightarrow> process_result"

fun ProcessArrayElements ::
  "process_fn \<Rightarrow> DexFile \<Rightarrow> nat \<Rightarrow> nat \<Rightarrow> cursor \<Rightarrow> Class option \<Rightarrow> JValue list
     \<Rightarrow> AnnotationValue \<Rightarrow> World \<Rightarrow> (bool \<times> cursor \<times> JValue list \<times> World) res"
where
  "ProcessArrayElements self dex_file 0 i annotation component_type new_array
       new_annotation_value w = Inr (True, annotation, new_array, w)"
| "ProcessArrayElements self dex_file (Suc sz) i annotation component_type new_array
       new_annotation_value w =
     (case self annotation new_annotation_value component_type kPrimitivesOrObjects w of
        Inl e \<Rightarrow> Inl e
      | Inr (ok, annotation, new_annotation_value, w) \<Rightarrow>
          if \<not> ok then Inr (False, annotation, new_array, w)
          else
            (case store_array_element dex_file component_type new_array i
                    new_annotation_value of
               Inl e \<Rightarrow> Inl e
             | Inr new_array \<Rightarrow>
                 ProcessArrayElements self dex_file sz (i + 1) annotation component_type
                   new_array new_annotation_value w))"

definition CreateAnnotationMember_with ::
  "process_fn \<Rightarrow> ClassData \<Rightarrow> Runtime \<Rightarrow> byte list \<Rightarrow> Class \<Rightarrow> cursor \<Rightarrow> World
     \<Rightarrow> (Object option \<times> cursor \<times> World) res"
where
  "CreateAnnotationMember_with self klass rt bs annotation_class annotation w =
     (case DecodeUnsignedLeb128 bs annotation of Inl e \<Rightarrow> Inl e
      | Inr (element_name_index, annotation) \<Rightarrow>
          let name = GetStringData (GetDexFile klass) element_name_index in
          (case FindDeclaredVirtualMethodByName rt annotation_class name of
             None \<Rightarrow> Inr (None, annotation, w)
           | Some annotation_method \<Rightarrow>
               (case service (AllocFromModifiedUtf8 rt name) w of
                  (None, w) \<Rightarrow> Inr (None, annotation, w)
                | (Some string_name, w) \<Rightarrow>
                    (case service (ResolveReturnType rt annotation_method) w of
                       (None, w) \<Rightarrow> Inr (None, annotation, w)
                     | (Some method_return, w) \<Rightarrow>
                         (case self annotation new_AnnotationValue (Some method_return)
                                 kAllObjects w of
                            Inl e \<Rightarrow> Inl e
                          | Inr (ok, annotation, annotation_value, w) \<Rightarrow>
                              if \<not> ok then Inr (None, annotation, w)
                              else
                                (case GetL (av_value annotation_value) of Inl e \<Rightarrow> Inl e
                                 | Inr value_object \<Rightarrow>
                                     (case service (Method_CreateFromArtMethod rt
                                                      annotation_method) w of
                                        (None, w) \<Rightarrow> Inr (None, annotation, w)
                                      | (Some method_object, w) \<Rightarrow>
                                          (case service (AnnotationMember_init rt string_name
                                                   value_object method_return method_object) w of
                                             (new_member, w) \<Rightarrow>
                                               Inr (new_member, annotation, w)))))))))"

fun CreateAnnotationMembers ::
  "process_fn \<Rightarrow> ClassData \<Rightarrow> Runtime \<Rightarrow> byte list \<Rightarrow> nat \<Rightarrow> Class \<Rightarrow> cursor \<Rightarrow> Object list
     \<Rightarrow> World \<Rightarrow> (Object list option \<times> cursor \<times> World) res"
where
  "CreateAnnotationMembers self klass rt bs 0 annotation_class annotation members w =
     Inr (Some members, annotation, w)"
| "CreateAnnotationMembers self klass rt bs (Suc sz) annotation_class annotation members w =
     (case CreateAnnotationMember_with self klass rt bs annotation_class annotation w of
        Inl e \<Rightarrow> Inl e
      | Inr (None, annotation, w) \<Rightarrow> Inr (None, annotation, w)
      | Inr (Some new_member, annotation, w) \<Rightarrow>
          CreateAnnotationMembers self klass rt bs sz annotation_class annotation
            (members @ [new_member]) w)"

definition ProcessEncodedAnnotation_with ::
  "process_fn \<Rightarrow> ClassData \<Rightarrow> Runtime \<Rightarrow> byte list \<Rightarrow> cursor \<Rightarrow> World
     \<Rightarrow> (Object option \<times> cursor \<times> World) res"
where
  "ProcessEncodedAnnotation_with self klass rt bs annotation w =
     (case DecodeUnsignedLeb128 bs annotation of Inl e \<Rightarrow> Inl e
      | Inr (type_index, annotation) \<Rightarrow>
          (case DecodeUnsignedLeb128 bs annotation of Inl e \<Rightarrow> Inl e
           | Inr (sz, annotation) \<Rightarrow>
               (case resolve (CallResolveType type_index) (ResolveType klass type_index) w of
                  (None, w) \<Rightarrow> Inr (None, annotation, w\<lparr>exception := None\<rparr>)
                | (Some annotation_class, w) \<Rightarrow>
                    (case AnnotationMember_array_class rt of
                       None \<Rightarrow> Inr (None, annotation, w)
                     | Some annotation_member_array_class \<Rightarrow>
                         (case (if sz > 0 then Array_Alloc rt annotation_member_array_class sz
                                else None) of
                            Some exc \<Rightarrow> Inr (None, annotation, w\<lparr>exception := Some exc\<rparr>)
                          | None \<Rightarrow>
                              (case CreateAnnotationMembers self klass rt bs (unat sz)
                                      annotation_class annotation [] w of
                                 Inl e \<Rightarrow> Inl e
                               | Inr (None, annotation, w) \<Rightarrow> Inr (None, annotation, w)
                               | Inr (Some members, annotation, w) \<Rightarrow>
                                   (let element_array =
                                          (if sz > 0
                                           then Some (ArrayObject annotation_member_array_class
                                                        (map (\<lambda>m. JL (Some m)) members))
                                           else None)
                                    in case service (createAnnotation rt annotation_class
                                                       element_array) w of
                                         (result, w) \<Rightarrow>
                                           if exception w \<noteq> None then Inr (None, annotation, w)
                                           else Inr ((case result of None \<Rightarrow> None
                                                      | Some r \<Rightarrow> r), annotation, w))))))))"

definition ProcessAnnotationValue_body ::
  "process_fn \<Rightarrow> ClassData \<Rightarrow> Runtime \<Rightarrow> byte list \<Rightarrow> process_fn"
where
  "ProcessAnnotationValue_body self klass rt bs annotation_ptr annotation_value array_class
       result_style w =
     (case read_byte bs annotation_ptr of Inl e \<Rightarrow> Inl e
      | Inr header_byte \<Rightarrow>
          let annotation = annotation_ptr + 1;
              value_type = header_byte AND kDexAnnotationValueTypeMask;
              value_arg = unat (drop_bit kDexAnnotationValueArgShift header_byte);
              annotation_value = annotation_value\<lparr>av_type := value_type\<rparr>
          in
          (case value_type_of (GetDexFile klass) value_type of
             None \<Rightarrow> return_false annotation_ptr annotation_value w
           | Some kDexAnnotationBoolean \<Rightarrow>
               after_switch rt result_style annotation 0
                 (annotation_value\<lparr>av_value := JZ (value_arg \<noteq> 0)\<rparr>) kPrimBoolean None False w
           | Some kDexAnnotationString \<Rightarrow>
               process_String klass rt result_style bs annotation_ptr annotation value_arg
                 annotation_value w
           | Some kDexAnnotationType \<Rightarrow>
               process_Type klass rt result_style bs annotation_ptr annotation value_arg
                 annotation_value w
           | Some kDexAnnotationMethod \<Rightarrow>
               process_Method klass rt result_style bs annotation_ptr annotation value_arg
                 annotation_value w
           | Some kDexAnnotationField \<Rightarrow>
               process_Field klass rt result_style bs annotation_ptr annotation value_arg
                 annotation_value w
           | Some kDexAnnotationEnum \<Rightarrow>
               process_Enum klass rt result_style bs annotation_ptr annotation value_arg
                 annotation_value w
           | Some kDexAnnotationArray \<Rightarrow>
               (case (if result_style = kAllRaw then None else array_class) of
                  None \<Rightarrow> return_false annotation_ptr annotation_value w
                | Some array_cls \<Rightarrow>
                    (case DecodeUnsignedLeb128 bs annotation of Inl e \<Rightarrow> Inl e
                     | Inr (sz, annotation) \<Rightarrow>
                         (case Array_Alloc rt array_cls sz of
                            Some exc \<Rightarrow>
                              return_false annotation_ptr annotation_value
                                (w\<lparr>exception := Some exc\<rparr>)
                          | None \<Rightarrow>
                              (case ProcessArrayElements self (GetDexFile klass) (unat sz) 0
                                      annotation (GetComponentType array_cls)
                                      (replicate (unat sz) (JJ 0)) new_AnnotationValue w of
                                 Inl e \<Rightarrow> Inl e
                               | Inr (ok, annotation, new_array, w) \<Rightarrow>
                                   if \<not> ok then return_false annotation_ptr annotation_value w
                                   else after_switch rt result_style annotation 0 annotation_value
                                          kPrimVoid (Some (ArrayObject array_cls new_array))
                                          True w))))
           | Some kDexAnnotationAnnotation \<Rightarrow>
               if result_style = kAllRaw then return_false annotation_ptr annotation_value w
               else
                 (case ProcessEncodedAnnotation_with self klass rt bs annotation w of
                    Inl e \<Rightarrow> Inl e
                  | Inr (None, annotation, w) \<Rightarrow> return_false annotation_ptr annotation_value w
                  | Inr (Some element_object, annotation, w) \<Rightarrow>
                      after_switch rt result_style annotation 0 annotation_value kPrimVoid
                        (Some element_object) True w)
           | Some kDexAnnotationNull \<Rightarrow>
               if result_style = kAllRaw then
                 after_switch rt result_style annotation 0
                   (annotation_value\<lparr>av_value := JI 0\<rparr>) kPrimVoid None False w
               else
                 after_switch rt result_style annotation 0 annotation_value kPrimVoid None True w
           | Some primitive_kind \<Rightarrow>
               process_primitive rt result_style bs annotation value_arg annotation_value w
                 primitive_kind))"

primrec ProcessAnnotationValue_fuel ::
  "nat \<Rightarrow> ClassData \<Rightarrow> Runtime \<Rightarrow> byte list \<Rightarrow> process_fn"
where
  "ProcessAnnotationValue_fuel 0 klass rt bs =
     (\<lambda>annotation_ptr annotation_value array_class result_style w. Inl OutOfFuel)"
| "ProcessAnnotationValue_fuel (Suc fuel) klass rt bs =
     ProcessAnnotationValue_body (ProcessAnnotationValue_fuel fuel klass rt bs) klass rt bs"

definition ProcessAnnotationValue ::
  "ClassData \<Rightarrow> Runtime \<Rightarrow> byte list \<Rightarrow> process_fn"
where
  "ProcessAnnotationValue klass rt bs annotation_ptr annotation_value array_class result_style w =
     ProcessAnnotationValue_fuel (Suc (length bs - annotation_ptr)) klass rt bs annotation_ptr
       annotation_value array_class result_style w"

definition ProcessEncodedAnnotation ::
  "ClassData \<Rightarrow> Runtime \<Rightarrow> byte list \<Rightarrow> cursor \<Rightarrow> World \<Rightarrow> (Object option \<times> cursor \<times> World) res"
where
  "ProcessEncodedAnnotation klass rt bs annotation w =
     ProcessEncodedAnnotation_with
       (ProcessAnnotationValue_fuel (Suc (length bs - annotation)) klass rt bs)
       klass rt bs annotation w"

subsection \<open>All annotations of one visibility\<close>

text \<open>
  The loop of \<^verbatim>\<open>ProcessAnnotationSet\<close>; \<open>objs\<close> are the slots of \<open>result\<close> filled so
  far (\<open>dest_index\<close> is their number). The source compares the visibility of an item
  with the requested one by \<^verbatim>\<open>!=\<close>.
\<close>

fun ProcessAnnotationSet_loop ::
  "ClassData \<Rightarrow> Runtime \<Rightarrow> AnnotationItem list \<Rightarrow> 32 word \<Rightarrow> Object list \<Rightarrow> World
     \<Rightarrow> (Object list option \<times> World) res"
where
  "ProcessAnnotationSet_loop klass rt [] visibility objs w = Inr (Some objs, w)"
| "ProcessAnnotationSet_loop klass rt (annotation_item # items) visibility objs w =
     (if ucast (item_visibility annotation_item) \<noteq> visibility
      then ProcessAnnotationSet_loop klass rt items visibility objs w
      else
        (case ProcessEncodedAnnotation klass rt (item_annotation annotation_item) 0 w of
           Inl e \<Rightarrow> Inl e
         | Inr (Some annotation_obj, annotation, w) \<Rightarrow>
             ProcessAnnotationSet_loop klass rt items visibility (objs @ [annotation_obj]) w
         | Inr (None, annotation, w) \<Rightarrow>
             if exception w \<noteq> None then Inr (None, w)
             else ProcessAnnotationSet_loop klass rt items visibility objs w))"

text \<open>
  \<^verbatim>\<open>ProcessAnnotationSet\<close>: the array of the annotation objects, or \<open>None\<close> for
  \<^verbatim>\<open>nullptr\<close>. When some item was left out, the source copies the filled slots into
  a second, shorter array.
\<close>

definition ProcessAnnotationSet ::
  "ClassData \<Rightarrow> Runtime \<Rightarrow> AnnotationItem list option \<Rightarrow> 32 word \<Rightarrow> World
     \<Rightarrow> (Object option \<times> World) res"
where
  "ProcessAnnotationSet klass rt annotation_set visibility w =
     (let annotation_array_class = Annotation_array_class rt in
      case annotation_set of
        None \<Rightarrow>
          (case Array_Alloc rt annotation_array_class 0 of
             Some exc \<Rightarrow> Inr (None, w\<lparr>exception := Some exc\<rparr>)
           | None \<Rightarrow> Inr (Some (ArrayObject annotation_array_class []), w))
      | Some items \<Rightarrow>
          (let sz = length items in
           case Array_Alloc rt annotation_array_class (of_nat sz) of
             Some exc \<Rightarrow> Inr (None, w\<lparr>exception := Some exc\<rparr>)
           | None \<Rightarrow>
               (case ProcessAnnotationSet_loop klass rt items visibility [] w of
                  Inl e \<Rightarrow> Inl e
                | Inr (None, w) \<Rightarrow> Inr (None, w)
                | Inr (Some objs, w) \<Rightarrow>
                    let dest_index = length objs;
                        filled = ArrayObject annotation_array_class (map (\<lambda>obj. JL (Some obj)) objs)
                    in
                    if dest_index = sz then Inr (Some filled, w)
                    else
                      (case Array_Alloc rt annotation_array_class (of_nat dest_index) of
                         Some exc \<Rightarrow> Inr (None, w\<lparr>exception := Some exc\<rparr>)
                       | None \<Rightarrow> Inr (Some filled, w)))))"

subsection \<open>The visitor\<close>













subsection \<open>Example inputs\<close>

text \<open>
  A dex file for the examples below. Its tags are those of the DEX format
  (\<^verbatim>\<open>VALUE_BYTE\<close> 0x00 to \<^verbatim>\<open>VALUE_BOOLEAN\<close> 0x1f); the tags 0x15 and 0x16
  (method type and method handle) are no case label of the source. String 0 is
  \<^verbatim>\<open>"a"\<close>, string 1 is \<^verbatim>\<open>"b"\<close>; type 0 is \<^verbatim>\<open>LFoo;\<close>, every other type \<^verbatim>\<open>LBar;\<close>.
\<close>

definition dex_format_value_type_of :: "byte \<Rightarrow> ValueType option" where
  "dex_format_value_type_of t =
     (if t = 0x00 then Some kDexAnnotationByte
      else if t = 0x02 then Some kDexAnnotationShort
      else if t = 0x03 then Some kDexAnnotationChar
      else if t = 0x04 then Some kDexAnnotationInt
      else if t = 0x06 then Some kDexAnnotationLong
      else if t = 0x10 then Some kDexAnnotationFloat
      else if t = 0x11 then Some kDexAnnotationDouble
      else if t = 0x17 then Some kDexAnnotationString
      else if t = 0x18 then Some kDexAnnotationType
      else if t = 0x19 then Some kDexAnnotationField
      else if t = 0x1a then Some kDexAnnotationMethod
      else if t = 0x1b then Some kDexAnnotationEnum
      else if t = 0x1c then Some kDexAnnotationArray
      else if t = 0x1d then Some kDexAnnotationAnnotation
      else if t = 0x1e then Some kDexAnnotationNull
      else if t = 0x1f then Some kDexAnnotationBoolean
      else None)"

definition example_dex_file :: DexFile where
  "example_dex_file =
     \<lparr>value_type_of = dex_format_value_type_of,
      GetStringData = (\<lambda>i. if i = 0 then ''a'' else if i = 1 then ''b'' else ''value''),
      GetTypeDescriptor = (\<lambda>i. if i = 0 then ''LFoo;'' else ''LBar;'')\<rparr>"

text \<open>
  A resolution context in which everything resolves except type 7, whose resolution
  fails with the exception \<open>ObjectRef 404\<close>.
\<close>

definition example_klass :: ClassData where
  "example_klass =
     \<lparr>GetDexFile = example_dex_file,
      ResolveString = (\<lambda>i. Inr (ObjectRef (unat i))),
      ResolveType = (\<lambda>i. if i = 7 then Inl (ObjectRef 404) else Inr (ReferenceClass (unat i))),
      ResolveMethodId = (\<lambda>i. Inr (unat i)),
      ResolveFieldJLS = (\<lambda>i. Inr (unat i)),
      ResolveField = (\<lambda>i. Inr (unat i))\<rparr>"

text \<open>
  A runtime in which every allocation succeeds. Its target SDK version is a parameter:
  with \<open>kUnset = 0\<close> and \<open>kM = 23\<close>, version 23 is set and at most \<open>kM\<close>, version 30
  is above it.
\<close>

definition example_runtime :: "32 word \<Rightarrow> Runtime" where
  "example_runtime target_sdk_version =
     \<lparr>GetTargetSdkVersion = target_sdk_version,
      SdkVersion_kUnset = 0,
      SdkVersion_kM = 23,
      IsConstructor = (\<lambda>m. False),
      Constructor_CreateFromArtMethod = (\<lambda>m. Inr (ObjectRef (1000 + m))),
      Method_CreateFromArtMethod = (\<lambda>m. Inr (ObjectRef (2000 + m))),
      Field_CreateFromArtField = (\<lambda>f. Inr (ObjectRef (3000 + f))),
      GetDeclaringClass = (\<lambda>f. ReferenceClass f),
      EnsureInitialized = (\<lambda>c. None),
      GetObject = (\<lambda>f. Some (ObjectRef (4000 + f))),
      Array_Alloc = (\<lambda>c n. None),
      BoxPrimitive = (\<lambda>p v. Some (ObjectRef 5000)),
      ThrowNewWrappedException = (\<lambda>descriptor msg cause. ObjectRef 6000),
      AnnotationMember_array_class = Some (ArrayClass (ReferenceClass 7000)),
      Annotation_array_class = ArrayClass (ReferenceClass 7001),
      FindDeclaredVirtualMethodByName = (\<lambda>c name. Some (length name)),
      AllocFromModifiedUtf8 = (\<lambda>name. Inr (ObjectRef (8000 + length name))),
      ResolveReturnType = (\<lambda>m. Inr (ArrayClass (PrimitiveClass kPrimInt))),
      AnnotationMember_init = (\<lambda>name value ret m. Inr (ObjectRef 9000)),
      createAnnotation = (\<lambda>c elements. Inr (Some (ObjectRef 9001)))\<rparr>"

definition example_world :: World where
  "example_world = \<lparr>exception = None, resolver_calls = []\<rparr>"

text \<open>
  An encoded annotation of type 0 with the three elements \<^verbatim>\<open>a = 1\<close>, \<^verbatim>\<open>b = 2\<close>,
  \<^verbatim>\<open>a = 3\<close>, each value an \<^verbatim>\<open>int\<close> of one byte.
\<close>

definition example_body :: "byte list" where
  "example_body = [0x00, 0x03, 0x00, 0x04, 0x01, 0x01, 0x04, 0x02, 0x00, 0x04, 0x03]"



text \<open>
  An annotation record of the given visibility whose annotation has the given type
  index (below 128, one varint byte) and no elements.
\<close>

definition example_item :: "byte \<Rightarrow> byte \<Rightarrow> AnnotationItem" where
  "example_item visibility type_index =
     \<lparr>item_visibility = visibility, item_annotation = [type_index, 0x00]\<rparr>"

text \<open>
  An encoded annotation of type 0 with two elements: \<^verbatim>\<open>b\<close>, an array of a
  two-byte \<^verbatim>\<open>int\<close> and a nested annotation with one Boolean element, and then
  \<^verbatim>\<open>a = 3\<close>.
\<close>

definition example_nested_body :: "byte list" where
  "example_nested_body =
     [0x00, 0x02,
      0x01, 0x1c, 0x02, 0x24, 0x01, 0x00, 0x1d, 0x00, 0x01, 0x01, 0x1f,
      0x00, 0x04, 0x03]"

section \<open>Properties\<close>

subsection \<open>Reading from the buffer\<close>

lemma read_byte_Inr: "read_byte bs p = Inr b \<Longrightarrow> p < length bs"
  by (simp add: read_byte_def split: if_splits)

lemma decode_leb_bounds:
  "decode_leb k bs p = Inr (v, p') \<Longrightarrow> p < p' \<and> p' \<le> length bs"
proof (induction k arbitrary: p v p')
  case 0
  then show ?case by (auto simp: read_byte_def split: if_splits sum.splits)
next
  case (Suc k)
  show ?case
  proof (cases "read_byte bs p")
    case (Inl e)
    with Suc.prems show ?thesis by simp
  next
    case (Inr cur)
    then have lt: "p < length bs" by (rule read_byte_Inr)
    show ?thesis
    proof (cases "cur > 0x7f")
      case True
      with Suc.prems Inr obtain hi where "decode_leb k bs (p + 1) = Inr (hi, p')"
        by (auto split: sum.splits)
      from Suc.IH[OF this] show ?thesis by simp
    next
      case False
      with Suc.prems Inr lt show ?thesis by auto
    qed
  qed
qed

lemma decode_leb_fault: "decode_leb k bs p = Inl e \<Longrightarrow> e = OutOfBounds"
  by (induction k arbitrary: p) (auto simp: read_byte_def split: if_splits sum.splits)

lemma DecodeUnsignedLeb128_bounds:
  "DecodeUnsignedLeb128 bs p = Inr (v, p') \<Longrightarrow> p < p' \<and> p' \<le> length bs"
  unfolding DecodeUnsignedLeb128_def by (rule decode_leb_bounds)

lemma DecodeUnsignedLeb128_fault: "DecodeUnsignedLeb128 bs p = Inl e \<Longrightarrow> e = OutOfBounds"
  unfolding DecodeUnsignedLeb128_def by (rule decode_leb_fault)

subsection \<open>Visibility\<close>

lemma SearchAnnotationSet_find:
  assumes "\<forall>item \<in> set items. \<exists>r. DecodeUnsignedLeb128 (item_annotation item) 0 = Inr r"
  shows "SearchAnnotationSet rt dex_file items descriptor visibility =
     Inr (find (\<lambda>item. IsVisibilityCompatible rt (ucast (item_visibility item)) visibility
            \<and> descriptor = GetTypeDescriptor dex_file
                 (fst (projr (DecodeUnsignedLeb128 (item_annotation item) 0)))) items)"
  using assms by (induction items) (auto split: sum.splits)

lemma SkipArrayElements_ok:
  assumes self: "\<And>p ok p'. self p = Inr (ok, p') \<Longrightarrow> ok \<and> p < p'"
  shows "SkipArrayElements self k p = Inr (ok, p') \<Longrightarrow> ok \<and> p \<le> p'"
proof (induction k arbitrary: p)
  case 0
  then show ?case by simp
next
  case (Suc k)
  from Suc.prems obtain ok1 p1 where s1: "self p = Inr (ok1, p1)"
    by (auto split: sum.splits)
  from self[OF s1] have "ok1" "p < p1" by simp_all
  with Suc.prems s1 have "SkipArrayElements self k p1 = Inr (ok, p')" by simp
  from Suc.IH[OF this] \<open>p < p1\<close> show ?case by simp
qed

lemma SkipAnnotationElements_ok:
  assumes self: "\<And>p ok p'. self p = Inr (ok, p') \<Longrightarrow> ok \<and> p < p'"
  shows "SkipAnnotationElements self bs k p = Inr (ok, p') \<Longrightarrow> ok \<and> p \<le> p'"
proof (induction k arbitrary: p)
  case 0
  then show ?case by simp
next
  case (Suc k)
  from Suc.prems obtain idx p0 where d: "DecodeUnsignedLeb128 bs p = Inr (idx, p0)"
    by (auto split: sum.splits)
  with Suc.prems obtain ok1 p1 where s1: "self p0 = Inr (ok1, p1)"
    by (auto split: sum.splits)
  from self[OF s1] have "ok1" "p0 < p1" by simp_all
  with Suc.prems d s1 have "SkipAnnotationElements self bs k p1 = Inr (ok, p')" by simp
  from Suc.IH[OF this] \<open>p0 < p1\<close> DecodeUnsignedLeb128_bounds[OF d] show ?case by simp
qed

text \<open>The branches of the switch of the skip, one lemma per group of case labels.\<close>

lemma skip_body_fault:
  "read_byte bs p = Inl e \<Longrightarrow> SkipAnnotationValue_body self dex_file bs p = Inl e"
  by (simp add: SkipAnnotationValue_body_def)

lemma skip_body_default:
  "read_byte bs p = Inr h \<Longrightarrow> value_type_of dex_file (h AND kDexAnnotationValueTypeMask) = None
   \<Longrightarrow> SkipAnnotationValue_body self dex_file bs p = Inl LogFatal"
  by (simp add: SkipAnnotationValue_body_def Let_def)

lemma skip_body_array:
  "read_byte bs p = Inr h
   \<Longrightarrow> value_type_of dex_file (h AND kDexAnnotationValueTypeMask) = Some kDexAnnotationArray
   \<Longrightarrow> SkipAnnotationValue_body self dex_file bs p =
       (case DecodeUnsignedLeb128 bs (p + 1) of Inl e \<Rightarrow> Inl e
        | Inr (sz, annotation) \<Rightarrow>
            (case SkipArrayElements self (unat sz) annotation of Inl e \<Rightarrow> Inl e
             | Inr (ok, annotation) \<Rightarrow> if \<not> ok then Inr (False, p) else Inr (True, annotation)))"
  by (simp add: SkipAnnotationValue_body_def Let_def)

lemma skip_body_annotation:
  "read_byte bs p = Inr h
   \<Longrightarrow> value_type_of dex_file (h AND kDexAnnotationValueTypeMask) = Some kDexAnnotationAnnotation
   \<Longrightarrow> SkipAnnotationValue_body self dex_file bs p =
       (case DecodeUnsignedLeb128 bs (p + 1) of Inl e \<Rightarrow> Inl e
        | Inr (type_index, annotation) \<Rightarrow>
            (case DecodeUnsignedLeb128 bs annotation of Inl e \<Rightarrow> Inl e
             | Inr (sz, annotation) \<Rightarrow>
                 (case SkipAnnotationElements self bs (unat sz) annotation of Inl e \<Rightarrow> Inl e
                  | Inr (ok, annotation) \<Rightarrow>
                      if \<not> ok then Inr (False, p) else Inr (True, annotation))))"
  by (simp add: SkipAnnotationValue_body_def Let_def)

lemma skip_body_other:
  "read_byte bs p = Inr h
   \<Longrightarrow> value_type_of dex_file (h AND kDexAnnotationValueTypeMask) = Some vt
   \<Longrightarrow> vt \<noteq> kDexAnnotationArray \<Longrightarrow> vt \<noteq> kDexAnnotationAnnotation
   \<Longrightarrow> SkipAnnotationValue_body self dex_file bs p =
       Inr (True, if vt = kDexAnnotationBoolean \<or> vt = kDexAnnotationNull then p + 1
                  else p + 1 + (unat (drop_bit kDexAnnotationValueArgShift h) + 1))"
  by (cases vt) (simp_all add: SkipAnnotationValue_body_def Let_def)

lemma SkipAnnotationValue_body_ok:
  assumes self: "\<And>p ok p'. self p = Inr (ok, p') \<Longrightarrow> ok \<and> p < p'"
    and r: "SkipAnnotationValue_body self dex_file bs p = Inr (ok, p')"
  shows "ok \<and> p < p'"
proof (cases "read_byte bs p")
  case (Inl e)
  from skip_body_fault[OF this] r show ?thesis by simp
next
  case (Inr h)
  show ?thesis
  proof (cases "value_type_of dex_file (h AND kDexAnnotationValueTypeMask)")
    case None
    from skip_body_default[OF Inr None] r show ?thesis by simp
  next
    case (Some vt)
    consider (arr) "vt = kDexAnnotationArray" | (ann) "vt = kDexAnnotationAnnotation"
      | (other) "vt \<noteq> kDexAnnotationArray" "vt \<noteq> kDexAnnotationAnnotation"
      by blast
    then show ?thesis
    proof cases
      case arr
      note b = skip_body_array[OF Inr Some[unfolded arr], of self]
      from r b obtain sz q where d: "DecodeUnsignedLeb128 bs (p + 1) = Inr (sz, q)"
        by (auto split: sum.splits)
      from r b d obtain ok1 q1 where l: "SkipArrayElements self (unat sz) q = Inr (ok1, q1)"
        by (auto split: sum.splits)
      from SkipArrayElements_ok[OF self l] have "ok1" "q \<le> q1" by simp_all
      with r b d l DecodeUnsignedLeb128_bounds[OF d] show ?thesis by auto
    next
      case ann
      note b = skip_body_annotation[OF Inr Some[unfolded ann], of self]
      from r b obtain ti q0 where d0: "DecodeUnsignedLeb128 bs (p + 1) = Inr (ti, q0)"
        by (auto split: sum.splits)
      from r b d0 obtain sz q where d: "DecodeUnsignedLeb128 bs q0 = Inr (sz, q)"
        by (auto split: sum.splits)
      from r b d0 d obtain ok1 q1 where
        l: "SkipAnnotationElements self bs (unat sz) q = Inr (ok1, q1)"
        by (auto split: sum.splits)
      from SkipAnnotationElements_ok[OF self l] have "ok1" "q \<le> q1" by simp_all
      with r b d0 d l DecodeUnsignedLeb128_bounds[OF d] DecodeUnsignedLeb128_bounds[OF d0]
      show ?thesis by auto
    next
      case other
      from skip_body_other[OF Inr Some other, of self] r show ?thesis
        by (auto split: if_splits)
    qed
  qed
qed

lemma SkipAnnotationValue_fuel_ok:
  "SkipAnnotationValue_fuel n dex_file bs p = Inr (ok, p') \<Longrightarrow> ok \<and> p < p'"
proof (induction n arbitrary: p ok p')
  case 0
  then show ?case by simp
next
  case (Suc n)
  show ?case
  proof (rule SkipAnnotationValue_body_ok)
    show "SkipAnnotationValue_body (SkipAnnotationValue_fuel n dex_file bs) dex_file bs p
          = Inr (ok, p')"
      using Suc.prems by simp
  qed (rule Suc.IH)
qed

lemma SkipAnnotationValue_ok:
  "SkipAnnotationValue dex_file bs p = Inr (ok, p') \<Longrightarrow> ok \<and> p < p'"
  unfolding SkipAnnotationValue_def by (rule SkipAnnotationValue_fuel_ok)

lemma SkipArrayElements_total:
  assumes self: "\<And>p ok p'. self p = Inr (ok, p') \<Longrightarrow> ok \<and> p < p'"
    and tot: "\<And>q. p0 \<le> q \<Longrightarrow> self q \<noteq> Inl OutOfFuel"
  shows "p0 \<le> p \<Longrightarrow> SkipArrayElements self k p \<noteq> Inl OutOfFuel"
proof (induction k arbitrary: p)
  case 0
  then show ?case by simp
next
  case (Suc k)
  show ?case
  proof (cases "self p")
    case (Inl e)
    with tot[OF Suc.prems] show ?thesis by auto
  next
    case (Inr r)
    obtain ok1 p1 where r: "r = (ok1, p1)" by (cases r)
    from self[OF Inr[unfolded r]] Suc.prems have "ok1" "p0 \<le> p1" by simp_all
    with Suc.IH[of p1] Inr r show ?thesis by simp
  qed
qed

lemma SkipAnnotationElements_total:
  assumes self: "\<And>p ok p'. self p = Inr (ok, p') \<Longrightarrow> ok \<and> p < p'"
    and tot: "\<And>q. p0 \<le> q \<Longrightarrow> self q \<noteq> Inl OutOfFuel"
  shows "p0 \<le> p \<Longrightarrow> SkipAnnotationElements self bs k p \<noteq> Inl OutOfFuel"
proof (induction k arbitrary: p)
  case 0
  then show ?case by simp
next
  case (Suc k)
  show ?case
  proof (cases "DecodeUnsignedLeb128 bs p")
    case (Inl e)
    from DecodeUnsignedLeb128_fault[OF this] Inl show ?thesis by simp
  next
    case (Inr d)
    obtain idx q where d: "d = (idx, q)" by (cases d)
    note dq = Inr[unfolded d]
    from DecodeUnsignedLeb128_bounds[OF dq] Suc.prems have q: "p0 \<le> q" by simp
    show ?thesis
    proof (cases "self q")
      case (Inl e)
      with tot[OF q] dq show ?thesis by auto
    next
      case (Inr r)
      obtain ok1 p1 where r: "r = (ok1, p1)" by (cases r)
      from self[OF Inr[unfolded r]] q have "ok1" "p0 \<le> p1" by simp_all
      with Suc.IH[of p1] Inr r dq show ?thesis by simp
    qed
  qed
qed

lemma SkipAnnotationValue_body_total:
  assumes self: "\<And>p ok p'. self p = Inr (ok, p') \<Longrightarrow> ok \<and> p < p'"
    and tot: "\<And>q. p < q \<Longrightarrow> p < length bs \<Longrightarrow> self q \<noteq> Inl OutOfFuel"
  shows "SkipAnnotationValue_body self dex_file bs p \<noteq> Inl OutOfFuel"
proof (cases "read_byte bs p")
  case (Inl e)
  then have "e = OutOfBounds" by (simp add: read_byte_def split: if_splits)
  with skip_body_fault[OF Inl] show ?thesis by simp
next
  case (Inr h)
  then have lt: "p < length bs" by (rule read_byte_Inr)
  have tot': "\<And>q. Suc p \<le> q \<Longrightarrow> self q \<noteq> Inl OutOfFuel"
    using tot lt by simp
  show ?thesis
  proof (cases "value_type_of dex_file (h AND kDexAnnotationValueTypeMask)")
    case None
    from skip_body_default[OF Inr None] show ?thesis by simp
  next
    case (Some vt)
    consider (arr) "vt = kDexAnnotationArray" | (ann) "vt = kDexAnnotationAnnotation"
      | (other) "vt \<noteq> kDexAnnotationArray" "vt \<noteq> kDexAnnotationAnnotation"
      by blast
    then show ?thesis
    proof cases
      case arr
      note b = skip_body_array[OF Inr Some[unfolded arr], of self]
      show ?thesis
      proof (cases "DecodeUnsignedLeb128 bs (p + 1)")
        case (Inl e)
        from DecodeUnsignedLeb128_fault[OF this] Inl show ?thesis unfolding b by simp
      next
        case (Inr d)
        obtain sz q where d: "d = (sz, q)" by (cases d)
        have dq: "DecodeUnsignedLeb128 bs (p + 1) = Inr (sz, q)" using Inr d by simp
        from DecodeUnsignedLeb128_bounds[OF dq] have "Suc p \<le> q" by simp
        from SkipArrayElements_total[OF self tot' this]
        have l: "SkipArrayElements self (unat sz) q \<noteq> Inl OutOfFuel" .
        show ?thesis unfolding b dq using l
          by (cases "SkipArrayElements self (unat sz) q") (simp_all split: prod.splits)
      qed
    next
      case ann
      note b = skip_body_annotation[OF Inr Some[unfolded ann], of self]
      show ?thesis
      proof (cases "DecodeUnsignedLeb128 bs (p + 1)")
        case (Inl e)
        from DecodeUnsignedLeb128_fault[OF this] Inl show ?thesis unfolding b by simp
      next
        case (Inr d0)
        obtain ti q0 where d0: "d0 = (ti, q0)" by (cases d0)
        note dq0 = Inr[unfolded d0]
        show ?thesis
        proof (cases "DecodeUnsignedLeb128 bs q0")
          case (Inl e)
          from DecodeUnsignedLeb128_fault[OF this] Inl dq0 show ?thesis unfolding b by simp
        next
          case (Inr d)
          obtain sz q where d: "d = (sz, q)" by (cases d)
          have dq: "DecodeUnsignedLeb128 bs q0 = Inr (sz, q)" using Inr d by simp
          from DecodeUnsignedLeb128_bounds[OF dq]
            DecodeUnsignedLeb128_bounds[OF dq0] have "Suc p \<le> q" by simp
          from SkipAnnotationElements_total[OF self tot' this]
          have l: "SkipAnnotationElements self bs (unat sz) q \<noteq> Inl OutOfFuel" .
          show ?thesis unfolding b dq0 using l dq
            by (cases "SkipAnnotationElements self bs (unat sz) q") (simp_all split: prod.splits)
        qed
      qed
    next
      case other
      from skip_body_other[OF Inr Some other, of self] show ?thesis by simp
    qed
  qed
qed

lemma SkipAnnotationValue_fuel_total:
  "length bs - p < n \<Longrightarrow> SkipAnnotationValue_fuel n dex_file bs p \<noteq> Inl OutOfFuel"
proof (induction n arbitrary: p)
  case 0
  then show ?case by simp
next
  case (Suc n)
  have "SkipAnnotationValue_body (SkipAnnotationValue_fuel n dex_file bs) dex_file bs p
        \<noteq> Inl OutOfFuel"
  proof (rule SkipAnnotationValue_body_total)
    fix q assume "p < q" "p < length bs"
    with Suc.prems have "length bs - q < n" by arith
    then show "SkipAnnotationValue_fuel n dex_file bs q \<noteq> Inl OutOfFuel" by (rule Suc.IH)
  qed (rule SkipAnnotationValue_fuel_ok)
  then show ?case by simp
qed

text \<open>The nesting budget of \<open>SkipAnnotationValue\<close> is never used up.\<close>

lemma SkipAnnotationValue_total:
  "SkipAnnotationValue dex_file bs p \<noteq> Inl OutOfFuel"
  unfolding SkipAnnotationValue_def by (rule SkipAnnotationValue_fuel_total) simp

subsection \<open>The branches of the decoder\<close>

lemma ProcessAnnotationValue_unfold:
  "ProcessAnnotationValue klass rt bs p av ac style w =
     ProcessAnnotationValue_body (ProcessAnnotationValue_fuel (length bs - p) klass rt bs)
       klass rt bs p av ac style w"
  by (simp add: ProcessAnnotationValue_def)

lemma process_body_fault:
  "read_byte bs p = Inl e \<Longrightarrow> ProcessAnnotationValue_body self klass rt bs p av ac style w = Inl e"
  by (simp add: ProcessAnnotationValue_body_def)


lemma process_body_array_fail:
  "read_byte bs p = Inr h
   \<Longrightarrow> value_type_of (GetDexFile klass) (h AND kDexAnnotationValueTypeMask)
         = Some kDexAnnotationArray
   \<Longrightarrow> style = kAllRaw \<or> ac = None
   \<Longrightarrow> ProcessAnnotationValue_body self klass rt bs p av ac style w =
       Inr (False, p, av\<lparr>av_type := h AND kDexAnnotationValueTypeMask\<rparr>, w)"
  by (auto simp: ProcessAnnotationValue_body_def Let_def return_false_def)

lemma process_body_type:
  "read_byte bs p = Inr h
   \<Longrightarrow> value_type_of (GetDexFile klass) (h AND kDexAnnotationValueTypeMask)
         = Some kDexAnnotationType
   \<Longrightarrow> ProcessAnnotationValue_body self klass rt bs p av ac style w =
       process_Type klass rt style bs p (p + 1)
         (unat (drop_bit kDexAnnotationValueArgShift h))
         (av\<lparr>av_type := h AND kDexAnnotationValueTypeMask\<rparr>) w"
  by (simp add: ProcessAnnotationValue_body_def Let_def)

lemma process_body_float:
  "read_byte bs p = Inr h
   \<Longrightarrow> value_type_of (GetDexFile klass) (h AND kDexAnnotationValueTypeMask)
         = Some kDexAnnotationFloat
   \<Longrightarrow> ProcessAnnotationValue_body self klass rt bs p av ac style w =
       process_primitive rt style bs (p + 1)
         (unat (drop_bit kDexAnnotationValueArgShift h))
         (av\<lparr>av_type := h AND kDexAnnotationValueTypeMask\<rparr>) w kDexAnnotationFloat"
  by (simp add: ProcessAnnotationValue_body_def Let_def)

text \<open>
  C6. Decoding an array with no array class returns \<^verbatim>\<open>false\<close> in every style: the
  cursor stays at the header, the value of the caller is untouched but for its type
  tag, and the world is unchanged, so no container is built.
\<close>

theorem array_without_class_fails:
  "read_byte bs annotation_ptr = Inr header_byte
   \<Longrightarrow> value_type_of (GetDexFile klass) (header_byte AND kDexAnnotationValueTypeMask)
         = Some kDexAnnotationArray
   \<Longrightarrow> ProcessAnnotationValue klass rt bs annotation_ptr annotation_value None result_style w =
       Inr (False, annotation_ptr,
            annotation_value\<lparr>av_type := header_byte AND kDexAnnotationValueTypeMask\<rparr>, w)"
  by (simp add: ProcessAnnotationValue_unfold process_body_array_fail)

text \<open>
  C2, as amended. Decoding an array under \<^verbatim>\<open>kAllRaw\<close> returns \<^verbatim>\<open>false\<close>, whatever
  the array class and the elements: the cursor stays at the header and nothing is
  decoded.
\<close>

theorem raw_array_fails:
  "read_byte bs annotation_ptr = Inr header_byte
   \<Longrightarrow> value_type_of (GetDexFile klass) (header_byte AND kDexAnnotationValueTypeMask)
         = Some kDexAnnotationArray
   \<Longrightarrow> ProcessAnnotationValue klass rt bs annotation_ptr annotation_value array_class kAllRaw w =
       Inr (False, annotation_ptr,
            annotation_value\<lparr>av_type := header_byte AND kDexAnnotationValueTypeMask\<rparr>, w)"
  by (simp add: ProcessAnnotationValue_unfold process_body_array_fail)

text \<open>
  C5. A type index that does not resolve: under \<^verbatim>\<open>kAllObjects\<close> the decode succeeds,
  its value is the exception made by \<^verbatim>\<open>ThrowNewWrappedException\<close> for
  \<^verbatim>\<open>TypeNotPresentException\<close>, and no exception is pending afterwards; under
  \<^verbatim>\<open>kPrimitivesOrObjects\<close> the decode returns \<^verbatim>\<open>false\<close> and the exception of the
  resolution stays pending; under \<^verbatim>\<open>kAllRaw\<close> the value is the stored index and the
  world, with its log of resolutions, is unchanged.
\<close>

theorem unresolvable_type:
  assumes "read_byte bs annotation_ptr = Inr header_byte"
    and "value_type_of (GetDexFile klass) (header_byte AND kDexAnnotationValueTypeMask)
         = Some kDexAnnotationType"
    and "ReadUnsignedInt bs (annotation_ptr + 1)
           (unat (drop_bit kDexAnnotationValueArgShift header_byte)) False = Inr index"
    and "ResolveType klass index = Inl exc"
  shows "ProcessAnnotationValue klass rt bs annotation_ptr annotation_value array_class
           kAllObjects w =
         Inr (True,
              annotation_ptr + 1 + (unat (drop_bit kDexAnnotationValueArgShift header_byte) + 1),
              annotation_value\<lparr>av_type := header_byte AND kDexAnnotationValueTypeMask,
                av_value := JL (Some (ThrowNewWrappedException rt
                  ''Ljava/lang/TypeNotPresentException;''
                  (GetTypeDescriptor (GetDexFile klass) index) (Some exc)))\<rparr>,
              w\<lparr>resolver_calls := resolver_calls w @ [CallResolveType index],
                exception := None\<rparr>)
       \<and> ProcessAnnotationValue klass rt bs annotation_ptr annotation_value array_class
           kPrimitivesOrObjects w =
         Inr (False, annotation_ptr,
              annotation_value\<lparr>av_type := header_byte AND kDexAnnotationValueTypeMask\<rparr>,
              w\<lparr>resolver_calls := resolver_calls w @ [CallResolveType index],
                exception := Some exc\<rparr>)
       \<and> ProcessAnnotationValue klass rt bs annotation_ptr annotation_value array_class
           kAllRaw w =
         Inr (True,
              annotation_ptr + 1 + (unat (drop_bit kDexAnnotationValueArgShift header_byte) + 1),
              annotation_value\<lparr>av_type := header_byte AND kDexAnnotationValueTypeMask,
                av_value := JI index\<rparr>,
              w)"
  using assms
  by (simp add: ProcessAnnotationValue_unfold process_body_type process_Type_def
      after_switch_def return_false_def resolve_def service_def Let_def)

theorem array_without_class_fails_witness:
  "read_byte [0x1c, 0x02, 0x04, 0x01, 0x04, 0x02] 0 = Inr 0x1c
   \<and> value_type_of (GetDexFile example_klass) (0x1c AND kDexAnnotationValueTypeMask)
       = Some kDexAnnotationArray
   \<and> ProcessAnnotationValue example_klass (example_runtime 23)
         [0x1c, 0x02, 0x04, 0x01, 0x04, 0x02] 0 new_AnnotationValue None kAllObjects example_world
       = Inr (False, 0, \<lparr>av_value = JJ 0, av_type = 0x1c\<rparr>, example_world)
   \<and> ProcessAnnotationValue example_klass (example_runtime 23)
         [0x1c, 0x02, 0x04, 0x01, 0x04, 0x02] 0 new_AnnotationValue None kPrimitivesOrObjects
         example_world
       = Inr (False, 0, \<lparr>av_value = JJ 0, av_type = 0x1c\<rparr>, example_world)"
proof -
  have h: "read_byte [0x1c, 0x02, 0x04, 0x01, 0x04, 0x02] 0 = Inr 0x1c"
    by (simp add: read_byte_def)
  have t: "value_type_of (GetDexFile example_klass) (0x1c AND kDexAnnotationValueTypeMask)
       = Some kDexAnnotationArray"
    by (simp add: example_klass_def example_dex_file_def dex_format_value_type_of_def
        kDexAnnotationValueTypeMask_def)
  have m: "(0x1c :: byte) AND kDexAnnotationValueTypeMask = 0x1c"
    by (simp add: kDexAnnotationValueTypeMask_def)
  note r = array_without_class_fails [OF h t, where rt = "example_runtime 23"
      and annotation_value = new_AnnotationValue and w = example_world]
  show ?thesis
    using h t r [of kAllObjects] r [of kPrimitivesOrObjects]
    by (simp add: m new_AnnotationValue_def)
qed

theorem raw_array_fails_witness:
  "read_byte [0x1c, 0x02, 0x04, 0x01, 0x04, 0x02] 0 = Inr 0x1c
   \<and> value_type_of (GetDexFile example_klass) (0x1c AND kDexAnnotationValueTypeMask)
       = Some kDexAnnotationArray
   \<and> ProcessAnnotationValue example_klass (example_runtime 30)
         [0x1c, 0x02, 0x04, 0x01, 0x04, 0x02] 0 new_AnnotationValue
         (Some (ArrayClass (PrimitiveClass kPrimInt))) kAllRaw example_world
       = Inr (False, 0, \<lparr>av_value = JJ 0, av_type = 0x1c\<rparr>, example_world)"
proof -
  have h: "read_byte [0x1c, 0x02, 0x04, 0x01, 0x04, 0x02] 0 = Inr 0x1c"
    by (simp add: read_byte_def)
  have t: "value_type_of (GetDexFile example_klass) (0x1c AND kDexAnnotationValueTypeMask)
       = Some kDexAnnotationArray"
    by (simp add: example_klass_def example_dex_file_def dex_format_value_type_of_def
        kDexAnnotationValueTypeMask_def)
  have m: "(0x1c :: byte) AND kDexAnnotationValueTypeMask = 0x1c"
    by (simp add: kDexAnnotationValueTypeMask_def)
  note r = raw_array_fails [OF h t, where rt = "example_runtime 30"
      and annotation_value = new_AnnotationValue and w = example_world
      and array_class = "Some (ArrayClass (PrimitiveClass kPrimInt))"]
  show ?thesis using h t r by (simp add: m new_AnnotationValue_def)
qed

text \<open>
  C2, as stated, fails: an array of the two \<^verbatim>\<open>int\<close> elements 1 and 2, decoded under
  \<^verbatim>\<open>kAllRaw\<close> with the class \<^verbatim>\<open>int[]\<close>, returns \<^verbatim>\<open>false\<close> and no integers.
\<close>

theorem raw_array_counterexample:
  "ProcessAnnotationValue example_klass (example_runtime 23)
     [0x1c, 0x02, 0x04, 0x01, 0x04, 0x02] 0 new_AnnotationValue
     (Some (ArrayClass (PrimitiveClass kPrimInt))) kAllRaw example_world
   = Inr (False, 0, \<lparr>av_value = JJ 0, av_type = 0x1c\<rparr>, example_world)"
  by code_simp

theorem unresolvable_type_witness:
  "read_byte [0x18, 0x07] 0 = Inr 0x18
   \<and> value_type_of (GetDexFile example_klass) (0x18 AND kDexAnnotationValueTypeMask)
       = Some kDexAnnotationType
   \<and> ReadUnsignedInt [0x18, 0x07] (0 + 1) (unat (drop_bit kDexAnnotationValueArgShift (0x18 :: byte)))
        False = Inr 7
   \<and> ResolveType example_klass 7 = Inl (ObjectRef 404)
   \<and> ProcessAnnotationValue example_klass (example_runtime 23) [0x18, 0x07] 0
         new_AnnotationValue None kAllObjects example_world
       = Inr (True, 2, \<lparr>av_value = JL (Some (ObjectRef 6000)), av_type = 0x18\<rparr>,
              \<lparr>exception = None, resolver_calls = [CallResolveType 7]\<rparr>)
   \<and> ProcessAnnotationValue example_klass (example_runtime 23) [0x18, 0x07] 0
         new_AnnotationValue None kPrimitivesOrObjects example_world
       = Inr (False, 0, \<lparr>av_value = JJ 0, av_type = 0x18\<rparr>,
              \<lparr>exception = Some (ObjectRef 404), resolver_calls = [CallResolveType 7]\<rparr>)
   \<and> ProcessAnnotationValue example_klass (example_runtime 23) [0x18, 0x07] 0
         new_AnnotationValue None kAllRaw example_world
       = Inr (True, 2, \<lparr>av_value = JI 7, av_type = 0x18\<rparr>, example_world)"
proof -
  have h: "read_byte [0x18, 0x07] 0 = Inr 0x18"
    by (simp add: read_byte_def)
  have t: "value_type_of (GetDexFile example_klass) (0x18 AND kDexAnnotationValueTypeMask)
       = Some kDexAnnotationType"
    by (simp add: example_klass_def example_dex_file_def dex_format_value_type_of_def
        kDexAnnotationValueTypeMask_def)
  have a: "unat (drop_bit kDexAnnotationValueArgShift (0x18 :: byte)) = 0"
    by (simp add: kDexAnnotationValueArgShift_def drop_bit_eq_div)
  have i: "ReadUnsignedInt [0x18, 0x07] (0 + 1)
        (unat (drop_bit kDexAnnotationValueArgShift (0x18 :: byte))) False = Inr 7"
    unfolding a by code_simp
  have r: "ResolveType example_klass 7 = Inl (ObjectRef 404)"
    by (simp add: example_klass_def)
  have m: "(0x18 :: byte) AND kDexAnnotationValueTypeMask = 0x18"
    by (simp add: kDexAnnotationValueTypeMask_def)
  have x: "ThrowNewWrappedException (example_runtime 23) d msg c = ObjectRef 6000" for d msg c
    by (simp add: example_runtime_def)
  note u = unresolvable_type [OF h t i r, where rt = "example_runtime 23"
      and annotation_value = new_AnnotationValue and w = example_world and array_class = None]
  show ?thesis
    using h t i r u
    by (simp add: m a x new_AnnotationValue_def example_world_def)
qed

subsection \<open>A float of one byte\<close>

lemma ucast_byte_64_32: "(ucast (ucast (b :: byte) :: 64 word) :: 32 word) = ucast b"
  by (rule bit_word_eqI) (auto simp: bit_simps)

lemma ReadUnsignedInt_one_byte_filled:
  "read_byte bs p = Inr b \<Longrightarrow> ReadUnsignedInt bs p 0 True = Inr (push_bit 24 (ucast b))"
  by (simp add: ReadUnsignedInt_def ucast_byte_64_32)

lemma left_justified_byte:
  "take_bit 24 (push_bit 24 (ucast (b :: byte)) :: 32 word) = 0
   \<and> drop_bit 24 (push_bit 24 (ucast b) :: 32 word) = ucast b"
proof
  show "take_bit 24 (push_bit 24 (ucast b) :: 32 word) = 0"
    by (simp add: take_bit_push_bit)
  show "drop_bit 24 (push_bit 24 (ucast b) :: 32 word) = ucast b"
    by (rule bit_word_eqI) (auto simp: bit_simps dest: bit_imp_le_length)
qed

text \<open>
  C8. A float whose header has \<open>arg = 0\<close> and whose one payload byte is \<open>b\<close> decodes
  in every style, and moves the cursor by two bytes. The bits decoded have their low
  24 bits zero and \<open>b\<close> as their high 8 bits; they are the value under \<^verbatim>\<open>kAllRaw\<close>
  and \<^verbatim>\<open>kPrimitivesOrObjects\<close>, and what \<^verbatim>\<open>BoxPrimitive\<close> boxes as a float under
  \<^verbatim>\<open>kAllObjects\<close>.
\<close>

theorem float_of_one_byte:
  assumes "read_byte bs annotation_ptr = Inr header_byte"
    and "value_type_of (GetDexFile klass) (header_byte AND kDexAnnotationValueTypeMask)
         = Some kDexAnnotationFloat"
    and "drop_bit kDexAnnotationValueArgShift header_byte = 0"
    and "read_byte bs (annotation_ptr + 1) = Inr b"
  shows "\<exists>bits :: 32 word.
           take_bit 24 bits = 0 \<and> drop_bit 24 bits = ucast b
         \<and> ProcessAnnotationValue klass rt bs annotation_ptr annotation_value array_class
             kAllRaw w =
           Inr (True, annotation_ptr + 2,
                annotation_value\<lparr>av_type := header_byte AND kDexAnnotationValueTypeMask,
                  av_value := JI bits\<rparr>, w)
         \<and> ProcessAnnotationValue klass rt bs annotation_ptr annotation_value array_class
             kPrimitivesOrObjects w =
           Inr (True, annotation_ptr + 2,
                annotation_value\<lparr>av_type := header_byte AND kDexAnnotationValueTypeMask,
                  av_value := JI bits\<rparr>, w)
         \<and> ProcessAnnotationValue klass rt bs annotation_ptr annotation_value array_class
             kAllObjects w =
           Inr (True, annotation_ptr + 2,
                annotation_value\<lparr>av_type := header_byte AND kDexAnnotationValueTypeMask,
                  av_value := JL (BoxPrimitive rt kPrimFloat (JI bits))\<rparr>, w)"
proof (intro exI conjI)
  show "take_bit 24 (push_bit 24 (ucast b) :: 32 word) = 0"
    using left_justified_byte by blast
  show "drop_bit 24 (push_bit 24 (ucast b) :: 32 word) = ucast b"
    using left_justified_byte by blast
  note rd = ReadUnsignedInt_one_byte_filled [OF assms(4), simplified]
  note body = process_body_float [OF assms(1,2)]
  show "ProcessAnnotationValue klass rt bs annotation_ptr annotation_value array_class
          kAllRaw w =
        Inr (True, annotation_ptr + 2,
             annotation_value\<lparr>av_type := header_byte AND kDexAnnotationValueTypeMask,
               av_value := JI (push_bit 24 (ucast b))\<rparr>, w)"
    by (simp add: ProcessAnnotationValue_unfold body assms(3) process_primitive_def rd
        after_switch_def Let_def)
  show "ProcessAnnotationValue klass rt bs annotation_ptr annotation_value array_class
          kPrimitivesOrObjects w =
        Inr (True, annotation_ptr + 2,
             annotation_value\<lparr>av_type := header_byte AND kDexAnnotationValueTypeMask,
               av_value := JI (push_bit 24 (ucast b))\<rparr>, w)"
    by (simp add: ProcessAnnotationValue_unfold body assms(3) process_primitive_def rd
        after_switch_def Let_def)
  show "ProcessAnnotationValue klass rt bs annotation_ptr annotation_value array_class
          kAllObjects w =
        Inr (True, annotation_ptr + 2,
             annotation_value\<lparr>av_type := header_byte AND kDexAnnotationValueTypeMask,
               av_value := JL (BoxPrimitive rt kPrimFloat (JI (push_bit 24 (ucast b))))\<rparr>, w)"
    by (simp add: ProcessAnnotationValue_unfold body assms(3) process_primitive_def rd
        after_switch_def Let_def)
qed

theorem float_of_one_byte_witness:
  "read_byte [0x10, 0x3f] 0 = Inr 0x10
   \<and> value_type_of (GetDexFile example_klass) (0x10 AND kDexAnnotationValueTypeMask)
       = Some kDexAnnotationFloat
   \<and> drop_bit kDexAnnotationValueArgShift (0x10 :: byte) = 0
   \<and> read_byte [0x10, 0x3f] (0 + 1) = Inr 0x3f
   \<and> ProcessAnnotationValue example_klass (example_runtime 23) [0x10, 0x3f] 0
         new_AnnotationValue None kAllRaw example_world
       = Inr (True, 2, \<lparr>av_value = JI 0x3f000000, av_type = 0x10\<rparr>, example_world)
   \<and> (\<exists>bits :: 32 word. take_bit 24 bits = 0 \<and> drop_bit 24 bits = 0x3f
        \<and> ProcessAnnotationValue example_klass (example_runtime 23) [0x10, 0x3f] 0
             new_AnnotationValue None kAllRaw example_world
           = Inr (True, 2, \<lparr>av_value = JI bits, av_type = 0x10\<rparr>, example_world))"
proof -
  have h: "read_byte [0x10, 0x3f] 0 = Inr 0x10"
    by (simp add: read_byte_def)
  have t: "value_type_of (GetDexFile example_klass) (0x10 AND kDexAnnotationValueTypeMask)
       = Some kDexAnnotationFloat"
    by (simp add: example_klass_def example_dex_file_def dex_format_value_type_of_def
        kDexAnnotationValueTypeMask_def)
  have a: "drop_bit kDexAnnotationValueArgShift (0x10 :: byte) = 0"
    by (simp add: kDexAnnotationValueArgShift_def drop_bit_eq_div)
  have b: "read_byte [0x10, 0x3f] (0 + 1) = Inr 0x3f"
    by (simp add: read_byte_def)
  have m: "(0x10 :: byte) AND kDexAnnotationValueTypeMask = 0x10"
    by (simp add: kDexAnnotationValueTypeMask_def)
  have v: "ProcessAnnotationValue example_klass (example_runtime 23) [0x10, 0x3f] 0
         new_AnnotationValue None kAllRaw example_world
       = Inr (True, 2, \<lparr>av_value = JI 0x3f000000, av_type = 0x10\<rparr>, example_world)"
    by code_simp
  from float_of_one_byte [OF h t a b, where rt = "example_runtime 23"
      and annotation_value = new_AnnotationValue and w = example_world and array_class = None]
  obtain bits :: "32 word" where "take_bit 24 bits = 0" "drop_bit 24 bits = 0x3f"
    "ProcessAnnotationValue example_klass (example_runtime 23) [0x10, 0x3f] 0
         new_AnnotationValue None kAllRaw example_world
       = Inr (True, 2, \<lparr>av_value = JI bits, av_type = 0x10\<rparr>, example_world)"
    by (auto simp: m new_AnnotationValue_def)
  then show ?thesis using h t a b v by blast
qed

lemma SearchAnnotationSet_exact:
  "SearchAnnotationSet rt dex_file items descriptor visibility =
     (case find (\<lambda>item. IsVisibilityCompatible rt (ucast (item_visibility item)) visibility
                   \<and> (case DecodeUnsignedLeb128 (item_annotation item) 0 of
                        Inl e \<Rightarrow> True
                      | Inr (type_index, p) \<Rightarrow>
                          descriptor = GetTypeDescriptor dex_file type_index)) items of
        None \<Rightarrow> Inr None
      | Some item \<Rightarrow>
          (case DecodeUnsignedLeb128 (item_annotation item) 0 of
             Inl e \<Rightarrow> Inl e
           | Inr r \<Rightarrow> Inr (Some item)))"
  by (induction items) (auto split: sum.splits)

lemma SearchAnnotationSet_found:
  "SearchAnnotationSet rt dex_file items descriptor visibility = Inr (Some found)
   \<Longrightarrow> found \<in> set items
       \<and> IsVisibilityCompatible rt (ucast (item_visibility found)) visibility"
  by (induction items) (auto split: sum.splits if_splits)

text \<open>
  C3. A record of Build visibility is compatible with a request for Runtime visibility
  exactly when the target SDK version is set and at most \<open>kM\<close>; a record of System
  visibility is never compatible with a request for Runtime visibility; every pair
  other than (Build, Runtime) is compatible exactly when the two are equal. The search
  of a set of records returns the first record, in stored order, whose visibility is
  compatible with the requested one and whose descriptor is the requested one (a
  compatible record whose type index cannot be read before that is a read past the
  buffer). So what a search for Runtime visibility finds is a record of the set of
  Runtime visibility, or one of Build visibility when the target SDK version is set
  and at most \<open>kM\<close>, and never one of System visibility.
\<close>

theorem visibility_compatibility:
  "(IsVisibilityCompatible rt kDexVisibilityBuild kDexVisibilityRuntime
      \<longleftrightarrow> IsSdkVersionSetAndAtMost rt (GetTargetSdkVersion rt) (SdkVersion_kM rt))
   \<and> \<not> IsVisibilityCompatible rt kDexVisibilitySystem kDexVisibilityRuntime
   \<and> ((actual, expected) \<noteq> (kDexVisibilityBuild, kDexVisibilityRuntime)
        \<longrightarrow> (IsVisibilityCompatible rt actual expected \<longleftrightarrow> actual = expected))
   \<and> SearchAnnotationSet rt dex_file items descriptor visibility =
       (case find (\<lambda>item. IsVisibilityCompatible rt (ucast (item_visibility item)) visibility
                     \<and> (case DecodeUnsignedLeb128 (item_annotation item) 0 of
                          Inl e \<Rightarrow> True
                        | Inr (type_index, p) \<Rightarrow>
                            descriptor = GetTypeDescriptor dex_file type_index)) items of
          None \<Rightarrow> Inr None
        | Some item \<Rightarrow>
            (case DecodeUnsignedLeb128 (item_annotation item) 0 of
               Inl e \<Rightarrow> Inl e
             | Inr r \<Rightarrow> Inr (Some item)))
   \<and> (SearchAnnotationSet rt dex_file items descriptor kDexVisibilityRuntime = Inr (Some found)
        \<longrightarrow> found \<in> set items
            \<and> ucast (item_visibility found) \<noteq> kDexVisibilitySystem
            \<and> (ucast (item_visibility found) = kDexVisibilityRuntime
                \<or> ucast (item_visibility found) = kDexVisibilityBuild
                   \<and> IsSdkVersionSetAndAtMost rt (GetTargetSdkVersion rt) (SdkVersion_kM rt)))"
proof (intro conjI impI)
  show "SearchAnnotationSet rt dex_file items descriptor visibility =
       (case find (\<lambda>item. IsVisibilityCompatible rt (ucast (item_visibility item)) visibility
                     \<and> (case DecodeUnsignedLeb128 (item_annotation item) 0 of
                          Inl e \<Rightarrow> True
                        | Inr (type_index, p) \<Rightarrow>
                            descriptor = GetTypeDescriptor dex_file type_index)) items of
          None \<Rightarrow> Inr None
        | Some item \<Rightarrow>
            (case DecodeUnsignedLeb128 (item_annotation item) 0 of
               Inl e \<Rightarrow> Inl e
             | Inr r \<Rightarrow> Inr (Some item)))"
    by (rule SearchAnnotationSet_exact)
next
  assume f: "SearchAnnotationSet rt dex_file items descriptor kDexVisibilityRuntime
             = Inr (Some found)"
  note c = SearchAnnotationSet_found [OF f]
  from c show "found \<in> set items" by simp
  from c show "ucast (item_visibility found) \<noteq> kDexVisibilitySystem"
    by (auto simp: IsVisibilityCompatible_def kDexVisibilityBuild_def
        kDexVisibilityRuntime_def kDexVisibilitySystem_def split: if_splits)
  from c show "ucast (item_visibility found) = kDexVisibilityRuntime
       \<or> ucast (item_visibility found) = kDexVisibilityBuild
          \<and> IsSdkVersionSetAndAtMost rt (GetTargetSdkVersion rt) (SdkVersion_kM rt)"
    by (auto simp: IsVisibilityCompatible_def split: if_splits)
qed (auto simp: IsVisibilityCompatible_def kDexVisibilityBuild_def kDexVisibilityRuntime_def
      kDexVisibilitySystem_def)

lemma example_item_visibility: "item_visibility (example_item v t) = v"
  by (simp add: example_item_def)

lemma example_item_type:
  "DecodeUnsignedLeb128 (item_annotation (example_item 0x02 0)) 0 = Inr (0, 1)"
  "DecodeUnsignedLeb128 (item_annotation (example_item 0x00 0)) 0 = Inr (0, 1)"
  "DecodeUnsignedLeb128 (item_annotation (example_item 0x01 0)) 0 = Inr (0, 1)"
  "DecodeUnsignedLeb128 (item_annotation (example_item 0x01 1)) 0 = Inr (1, 1)"
  by code_simp+

lemmas example_item_sel = example_item_visibility example_item_type

theorem visibility_compatibility_witness:
  "(kDexVisibilitySystem, kDexVisibilitySystem) \<noteq> (kDexVisibilityBuild, kDexVisibilityRuntime)
   \<and> IsVisibilityCompatible (example_runtime 23) kDexVisibilitySystem kDexVisibilitySystem
   \<and> IsVisibilityCompatible (example_runtime 23) kDexVisibilityBuild kDexVisibilityRuntime
   \<and> \<not> IsVisibilityCompatible (example_runtime 30) kDexVisibilityBuild kDexVisibilityRuntime
   \<and> SearchAnnotationSet (example_runtime 23) example_dex_file
        [example_item 0x02 0, example_item 0x00 0, example_item 0x01 0] ''LFoo;''
        kDexVisibilityRuntime
      = Inr (Some (example_item 0x00 0))
   \<and> example_item 0x00 0 \<in> set [example_item 0x02 0, example_item 0x00 0, example_item 0x01 0]
   \<and> SearchAnnotationSet (example_runtime 30) example_dex_file
        [example_item 0x02 0, example_item 0x00 0, example_item 0x01 0] ''LFoo;''
        kDexVisibilityRuntime
      = Inr (Some (example_item 0x01 0))
   \<and> SearchAnnotationSet (example_runtime 23) example_dex_file
        [example_item 0x02 0, example_item 0x00 0] ''LFoo;'' kDexVisibilitySystem
      = Inr (Some (example_item 0x02 0))
   \<and> SearchAnnotationSet (example_runtime 23) example_dex_file
        [example_item 0x01 1] ''LFoo;'' kDexVisibilityRuntime
      = Inr None"
proof -
  let ?items = "[example_item 0x02 0, example_item 0x00 0, example_item 0x01 0]"
  have sdk: "IsSdkVersionSetAndAtMost (example_runtime 23)
      (GetTargetSdkVersion (example_runtime 23)) (SdkVersion_kM (example_runtime 23))"
    "\<not> IsSdkVersionSetAndAtMost (example_runtime 30)
      (GetTargetSdkVersion (example_runtime 30)) (SdkVersion_kM (example_runtime 30))"
    by (simp_all add: IsSdkVersionSetAndAtMost_def example_runtime_def)
  have ne: "(kDexVisibilitySystem, kDexVisibilitySystem) \<noteq> (kDexVisibilityBuild, kDexVisibilityRuntime)"
    by (simp add: kDexVisibilityBuild_def kDexVisibilitySystem_def)
  have desc: "GetTypeDescriptor example_dex_file 0 = ''LFoo;''"
    "GetTypeDescriptor example_dex_file 1 = ''LBar;''"
    by (simp_all add: example_dex_file_def)
  have c: "IsVisibilityCompatible rt a e =
      (if e = 1 \<and> IsSdkVersionSetAndAtMost rt (GetTargetSdkVersion rt) (SdkVersion_kM rt)
       then a = 1 \<or> a = 0 else a = e)" for rt a e
    by (simp add: IsVisibilityCompatible_def kDexVisibilityBuild_def kDexVisibilityRuntime_def)
  note vis = kDexVisibilityBuild_def kDexVisibilityRuntime_def kDexVisibilitySystem_def
  have s23: "SearchAnnotationSet (example_runtime 23) example_dex_file ?items ''LFoo;''
        kDexVisibilityRuntime = Inr (Some (example_item 0x00 0))"
    using visibility_compatibility [where rt = "example_runtime 23"
      and dex_file = example_dex_file and items = ?items and descriptor = "''LFoo;''"
      and visibility = kDexVisibilityRuntime]
    by (simp add: example_item_sel desc c sdk vis)
  note t = visibility_compatibility [where rt = "example_runtime 23"
      and actual = kDexVisibilitySystem and expected = kDexVisibilitySystem
      and dex_file = example_dex_file and items = ?items and descriptor = "''LFoo;''"
      and visibility = kDexVisibilityRuntime and found = "example_item 0x00 0"]
  from t ne s23 sdk have u:
    "IsVisibilityCompatible (example_runtime 23) kDexVisibilitySystem kDexVisibilitySystem"
    "IsVisibilityCompatible (example_runtime 23) kDexVisibilityBuild kDexVisibilityRuntime"
    "example_item 0x00 0 \<in> set ?items"
    by blast+
  from visibility_compatibility [where rt = "example_runtime 30"] sdk have n30:
    "\<not> IsVisibilityCompatible (example_runtime 30) kDexVisibilityBuild kDexVisibilityRuntime"
    by blast
  have s30: "SearchAnnotationSet (example_runtime 30) example_dex_file ?items ''LFoo;''
        kDexVisibilityRuntime = Inr (Some (example_item 0x01 0))"
    by (simp add: SearchAnnotationSet_exact example_item_sel desc c sdk vis)
  have sys: "SearchAnnotationSet (example_runtime 23) example_dex_file
        [example_item 0x02 0, example_item 0x00 0] ''LFoo;'' kDexVisibilitySystem
      = Inr (Some (example_item 0x02 0))"
    by (simp add: SearchAnnotationSet_exact example_item_sel desc c sdk vis)
  have none: "SearchAnnotationSet (example_runtime 23) example_dex_file
        [example_item 0x01 1] ''LFoo;'' kDexVisibilityRuntime = Inr None"
    by (simp add: SearchAnnotationSet_exact example_item_sel desc c sdk vis)
  show ?thesis using ne u n30 s23 s30 sys none by blast
qed

subsection \<open>The skip against the grammar\<close>

lemma read_byte_append:
  "i < length lb \<Longrightarrow> read_byte (pre @ lb @ post) (length pre + i) = Inr (lb ! i)"
  by (simp add: read_byte_def nth_append)

lemma decode_leb_local:
  "decode_leb k lb i = Inr (n, length lb)
   \<Longrightarrow> decode_leb k (pre @ lb @ post) (length pre + i) = Inr (n, length pre + length lb)"
proof (induction k arbitrary: i n)
  case 0
  then obtain cur where r: "read_byte lb i = Inr cur" and n: "n = ucast cur" "length lb = i + 1"
    by (auto split: sum.splits)
  from r have lt: "i < length lb" by (rule read_byte_Inr)
  from r lt have "cur = lb ! i" by (simp add: read_byte_def)
  with read_byte_append[OF lt, of pre post] n show ?case by simp
next
  case (Suc k)
  from Suc.prems obtain cur where r: "read_byte lb i = Inr cur"
    by (auto split: sum.splits)
  from r have lt: "i < length lb" by (rule read_byte_Inr)
  from r lt have cur: "cur = lb ! i" by (simp add: read_byte_def)
  note rb = read_byte_append[OF lt, of pre post, folded cur]
  show ?case
  proof (cases "cur > 0x7f")
    case True
    with Suc.prems r obtain hi where d: "decode_leb k lb (i + 1) = Inr (hi, length lb)"
      and n: "n = ucast (cur AND 0x7f) OR push_bit 7 hi"
      by (auto split: sum.splits)
    from Suc.IH[OF d] have "decode_leb k (pre @ lb @ post) (length pre + i + 1)
        = Inr (hi, length pre + length lb)" by (simp add: add.assoc)
    with rb True n show ?thesis by simp
  next
    case False
    with Suc.prems r have "n = ucast cur" "length lb = i + 1" by auto
    with rb False show ?thesis by simp
  qed
qed

lemma leb_read_local:
  assumes "leb_read lb = Some n"
  shows "DecodeUnsignedLeb128 (pre @ lb @ post) (length pre) = Inr (n, length pre + length lb)"
proof -
  from assms have "decode_leb 4 lb 0 = Inr (n, length lb)"
    by (auto simp: leb_read_def DecodeUnsignedLeb128_def split: sum.splits if_splits)
  from decode_leb_local[OF this, of pre post] show ?thesis
    by (simp add: DecodeUnsignedLeb128_def)
qed

lemma leb_read_nonempty: "leb_read lb = Some n \<Longrightarrow> 0 < length lb"
  using DecodeUnsignedLeb128_bounds [of lb 0 n "length lb"]
  by (auto simp: leb_read_def split: sum.splits if_splits)

lemma encode_nonempty: "0 < length (encode v)"
  by (cases v) simp_all

lemma encode_member_le:
  "v \<in> set vs \<Longrightarrow> length (encode v) \<le> length (concat (map encode vs))"
  by (induction vs) auto

lemma encode_element_le:
  "e \<in> set es \<Longrightarrow> length (encode (snd e)) \<le> length (encode_elements es)"
  by (induction es) (auto simp: encode_elements_def)

lemma SkipArrayElements_encoded:
  assumes self: "\<And>v pre post. v \<in> set vs \<Longrightarrow> bs = pre @ encode v @ post
      \<Longrightarrow> self (length pre) = Inr (True, length pre + length (encode v))"
  shows "set ws \<subseteq> set vs \<Longrightarrow> bs = pre0 @ concat (map encode ws) @ post0
      \<Longrightarrow> SkipArrayElements self (length ws) (length pre0)
          = Inr (True, length pre0 + length (concat (map encode ws)))"
proof (induction ws arbitrary: pre0)
  case Nil
  then show ?case by simp
next
  case (Cons w ws)
  from Cons.prems have w: "w \<in> set vs" and sub: "set ws \<subseteq> set vs" by simp_all
  from Cons.prems have b1: "bs = pre0 @ encode w @ (concat (map encode ws) @ post0)" by simp
  from self[OF w b1] have s: "self (length pre0) = Inr (True, length pre0 + length (encode w))" .
  from Cons.prems have b2: "bs = (pre0 @ encode w) @ concat (map encode ws) @ post0" by simp
  from Cons.IH[OF sub b2] s show ?case by (simp add: add.assoc)
qed

lemma SkipAnnotationElements_encoded:
  assumes self: "\<And>e pre post. e \<in> set es \<Longrightarrow> bs = pre @ encode (snd e) @ post
      \<Longrightarrow> self (length pre) = Inr (True, length pre + length (encode (snd e)))"
    and names: "\<And>e. e \<in> set es \<Longrightarrow> leb_read (fst e) \<noteq> None"
  shows "set fs \<subseteq> set es \<Longrightarrow> bs = pre0 @ encode_elements fs @ post0
      \<Longrightarrow> SkipAnnotationElements self bs (length fs) (length pre0)
          = Inr (True, length pre0 + length (encode_elements fs))"
proof (induction fs arbitrary: pre0)
  case Nil
  then show ?case by (simp add: encode_elements_def)
next
  case (Cons f fs)
  from Cons.prems have f: "f \<in> set es" and sub: "set fs \<subseteq> set es" by simp_all
  from names[OF f] obtain n where n: "leb_read (fst f) = Some n" by auto
  from Cons.prems have b0: "bs = pre0 @ fst f @ (encode (snd f) @ encode_elements fs @ post0)"
    by (simp add: encode_elements_def)
  from leb_read_local[OF n, of pre0 "encode (snd f) @ encode_elements fs @ post0"] b0
  have d: "DecodeUnsignedLeb128 bs (length pre0) = Inr (n, length pre0 + length (fst f))"
    by simp
  from b0 have b1: "bs = (pre0 @ fst f) @ encode (snd f) @ (encode_elements fs @ post0)"
    by simp
  from self[OF f b1]
  have s: "self (length pre0 + length (fst f))
      = Inr (True, length pre0 + length (fst f) + length (encode (snd f)))" by simp
  from b0 have b2: "bs = (pre0 @ fst f @ encode (snd f)) @ encode_elements fs @ post0" by simp
  from Cons.IH[OF sub b2] d s show ?case
    by (simp add: add.assoc encode_elements_def)
qed

lemma spec_kind_mask:
  "spec_kind dex_file h = value_type_of dex_file (h AND kDexAnnotationValueTypeMask)"
  by (simp add: spec_kind_def kDexAnnotationValueTypeMask_def)

lemma spec_width_shift:
  "spec_width h = unat (drop_bit kDexAnnotationValueArgShift h) + 1"
  by (simp add: spec_width_def kDexAnnotationValueArgShift_def)

lemma unat_of_nat_length: "n < 2 ^ 32 \<Longrightarrow> unat (of_nat n :: 32 word) = n"
  by (simp add: unat_of_nat)

lemma read_byte_header:
  "read_byte (pre @ (h # rest) @ post) (length pre) = Inr h"
  by (simp add: read_byte_def nth_append)

lemma SkipAnnotationValue_fuel_encoded:
  "well_formed dex_file v \<Longrightarrow> length (encode v) \<le> n
   \<Longrightarrow> SkipAnnotationValue_fuel n dex_file (pre @ encode v @ post) (length pre)
       = Inr (True, length pre + length (encode v))"
proof (induction v arbitrary: n pre post)
  case (SpecScalar h payload)
  then obtain m where n: "n = Suc m" by (cases n) auto
  let ?bs = "pre @ encode (SpecScalar h payload) @ post"
  have rb: "read_byte ?bs (length pre) = Inr h" using read_byte_header[of pre h payload post] by simp
  from SpecScalar.prems obtain vt where
    k: "value_type_of dex_file (h AND kDexAnnotationValueTypeMask) = Some vt"
    and vt: "vt \<noteq> kDexAnnotationArray" "vt \<noteq> kDexAnnotationAnnotation"
      "vt \<noteq> kDexAnnotationBoolean" "vt \<noteq> kDexAnnotationNull"
    and w: "length payload = spec_width h"
    by (auto simp: spec_kind_mask)
  from skip_body_other[OF rb k vt(1,2)] vt w show ?case
    by (simp add: n spec_width_shift)
next
  case (SpecEmpty h)
  then obtain m where n: "n = Suc m" by (cases n) auto
  let ?bs = "pre @ encode (SpecEmpty h) @ post"
  have rb: "read_byte ?bs (length pre) = Inr h" using read_byte_header[of pre h "[]" post] by simp
  from SpecEmpty.prems obtain vt where
    k: "value_type_of dex_file (h AND kDexAnnotationValueTypeMask) = Some vt"
    and vt: "vt = kDexAnnotationBoolean \<or> vt = kDexAnnotationNull"
    by (auto simp: spec_kind_mask)
  from vt have ne: "vt \<noteq> kDexAnnotationArray" "vt \<noteq> kDexAnnotationAnnotation" by auto
  from skip_body_other[OF rb k ne] vt show ?case
    by (auto simp: n)
next
  case (SpecArray h szb vs)
  then obtain m where n: "n = Suc m" by (cases n) auto
  let ?body = "concat (map encode vs)"
  let ?bs = "pre @ encode (SpecArray h szb vs) @ post"
  have rb: "read_byte ?bs (length pre) = Inr h"
    using read_byte_header[of pre h "szb @ ?body" post] by simp
  from SpecArray.prems have
    k: "value_type_of dex_file (h AND kDexAnnotationValueTypeMask) = Some kDexAnnotationArray"
    and len: "length vs < 2 ^ 32"
    and sz: "leb_read szb = Some (of_nat (length vs))"
    and wf: "\<And>v. v \<in> set vs \<Longrightarrow> well_formed dex_file v"
    by (auto simp: spec_kind_mask list_all_iff)
  have bs1: "?bs = (pre @ [h]) @ szb @ (?body @ post)" by simp
  from leb_read_local[OF sz, of "pre @ [h]" "?body @ post"]
  have d: "DecodeUnsignedLeb128 ?bs (length pre + 1)
      = Inr (of_nat (length vs), length pre + 1 + length szb)"
    unfolding bs1 by simp
  have self: "SkipAnnotationValue_fuel m dex_file ?bs (length pre')
      = Inr (True, length pre' + length (encode v))"
    if "v \<in> set vs" "?bs = pre' @ encode v @ post'" for v pre' post'
  proof -
    from encode_member_le[OF that(1)] SpecArray.prems(2) n
    have "length (encode v) \<le> m" by simp
    from SpecArray.IH[OF that(1) wf[OF that(1)] this, of pre' post'] that(2)
    show ?thesis by simp
  qed
  have bs2: "?bs = (pre @ h # szb) @ concat (map encode vs) @ post" by simp
  from SkipArrayElements_encoded[where self = "SkipAnnotationValue_fuel m dex_file ?bs"
      and vs = vs and bs = ?bs and ws = vs and ?pre0.0 = "pre @ h # szb" and ?post0.0 = post,
      OF self subset_refl bs2]
  have l: "SkipArrayElements (SkipAnnotationValue_fuel m dex_file ?bs) (length vs)
      (length pre + 1 + length szb) = Inr (True, length pre + 1 + length szb + length ?body)"
    by (simp add: add.assoc)
  show ?case
    unfolding n SkipAnnotationValue_fuel.simps skip_body_array[OF rb k]
    using d l by (simp add: unat_of_nat_length[OF len])
next
  case (SpecAnnotation h tb cb es)
  then obtain m where n: "n = Suc m" by (cases n) auto
  let ?body = "encode_elements es"
  let ?bs = "pre @ encode (SpecAnnotation h tb cb es) @ post"
  have enc: "encode (SpecAnnotation h tb cb es) = h # tb @ cb @ ?body"
    by (simp add: encode_elements_def)
  note encode.simps(4) [simp del]
  have rb: "read_byte ?bs (length pre) = Inr h"
    using read_byte_header[of pre h "tb @ cb @ ?body" post] by (simp add: enc)
  from SpecAnnotation.prems have
    k: "value_type_of dex_file (h AND kDexAnnotationValueTypeMask)
        = Some kDexAnnotationAnnotation"
    and len: "length es < 2 ^ 32"
    and sz: "leb_read cb = Some (of_nat (length es))"
    and wf: "\<And>e. e \<in> set es \<Longrightarrow> well_formed dex_file (snd e)"
    and names: "\<And>e. e \<in> set es \<Longrightarrow> leb_read (fst e) \<noteq> None"
    by (auto simp: spec_kind_mask list_all_iff)
  from SpecAnnotation.prems obtain ti where ti: "leb_read tb = Some ti" by auto
  have bs1: "?bs = (pre @ [h]) @ tb @ (cb @ ?body @ post)" by (simp add: enc)
  from leb_read_local[OF ti, of "pre @ [h]" "cb @ ?body @ post"]
  have d1: "DecodeUnsignedLeb128 ?bs (length pre + 1) = Inr (ti, length pre + 1 + length tb)"
    unfolding bs1 by simp
  have bs2: "?bs = (pre @ h # tb) @ cb @ (?body @ post)" by (simp add: enc)
  from leb_read_local[OF sz, of "pre @ h # tb" "?body @ post"]
  have d2: "DecodeUnsignedLeb128 ?bs (length pre + 1 + length tb)
      = Inr (of_nat (length es), length pre + 1 + length tb + length cb)"
    unfolding bs2 by (simp add: add.assoc)
  have self: "SkipAnnotationValue_fuel m dex_file ?bs (length pre')
      = Inr (True, length pre' + length (encode (snd e)))"
    if "e \<in> set es" "?bs = pre' @ encode (snd e) @ post'" for e pre' post'
  proof -
    from encode_element_le[OF that(1)] SpecAnnotation.prems(2) n
    have le: "length (encode (snd e)) \<le> m" by (simp add: enc)
    have "snd e \<in> Basic_BNFs.snds e" by (cases e) simp
    from SpecAnnotation.IH[OF that(1) this wf[OF that(1)] le, of pre' post'] that(2)
    show ?thesis by simp
  qed
  have bs3: "?bs = (pre @ h # tb @ cb) @ encode_elements es @ post" by (simp add: enc)
  from SkipAnnotationElements_encoded[where self = "SkipAnnotationValue_fuel m dex_file ?bs"
      and es = es and bs = ?bs and fs = es and ?pre0.0 = "pre @ h # tb @ cb" and ?post0.0 = post,
      OF self names subset_refl bs3]
  have l: "SkipAnnotationElements (SkipAnnotationValue_fuel m dex_file ?bs) ?bs (length es)
      (length pre + 1 + length tb + length cb)
      = Inr (True, length pre + 1 + length tb + length cb + length ?body)"
    by (simp add: add.assoc)
  show ?case
    unfolding n SkipAnnotationValue_fuel.simps skip_body_annotation[OF rb k]
    using d1 d2 l by (simp add: unat_of_nat_length[OF len] enc)
qed

text \<open>
  The skip is right against the grammar: over the bytes of a well formed value,
  wherever they lie in the buffer, it returns \<^verbatim>\<open>true\<close> and moves the cursor to the
  first byte after the value.
\<close>

lemma SkipAnnotationValue_encoded:
  assumes "well_formed dex_file v"
  shows "SkipAnnotationValue dex_file (pre @ encode v @ post) (length pre)
       = Inr (True, length pre + length (encode v))"
  unfolding SkipAnnotationValue_def
  by (rule SkipAnnotationValue_fuel_encoded[OF assms]) simp

subsection \<open>The search for an element\<close>

lemma encode_elements_Cons:
  "encode_elements (e # es) = fst e @ encode (snd e) @ encode_elements es"
  by (simp add: encode_elements_def)

lemma SearchEncodedAnnotation_loop_skipped:
  assumes "list_all (\<lambda>element. spec_element_name dex_file (fst element) \<notin> {None, Some name}
                                 \<and> well_formed dex_file (snd element)) skipped"
  shows "SearchEncodedAnnotation_loop dex_file (pre @ encode_elements skipped @ rest) name
           (length skipped + k) (length pre)
       = SearchEncodedAnnotation_loop dex_file (pre @ encode_elements skipped @ rest) name
           k (length pre + length (encode_elements skipped))"
  using assms
proof (induction skipped arbitrary: pre)
  case Nil
  then show ?case by (simp add: encode_elements_def)
next
  case (Cons e es)
  let ?bs = "pre @ encode_elements (e # es) @ rest"
  from Cons.prems obtain n where n: "leb_read (fst e) = Some n"
    and ne: "name \<noteq> GetStringData dex_file n"
    and wf: "well_formed dex_file (snd e)"
    and rest: "list_all (\<lambda>element. spec_element_name dex_file (fst element) \<notin> {None, Some name}
                                 \<and> well_formed dex_file (snd element)) es"
    by (auto simp: spec_element_name_def)
  have b0: "?bs = pre @ fst e @ (encode (snd e) @ encode_elements es @ rest)"
    by (simp add: encode_elements_Cons)
  from leb_read_local[OF n, of pre "encode (snd e) @ encode_elements es @ rest"]
  have d: "DecodeUnsignedLeb128 ?bs (length pre) = Inr (n, length pre + length (fst e))"
    unfolding b0 .
  have b1: "?bs = (pre @ fst e) @ encode (snd e) @ (encode_elements es @ rest)"
    by (simp add: encode_elements_Cons)
  from SkipAnnotationValue_encoded[OF wf, of "pre @ fst e" "encode_elements es @ rest"]
  have s: "SkipAnnotationValue dex_file ?bs (length pre + length (fst e))
      = Inr (True, length pre + length (fst e) + length (encode (snd e)))"
    unfolding b1 by simp
  have b2: "?bs = (pre @ fst e @ encode (snd e)) @ encode_elements es @ rest"
    by (simp add: encode_elements_Cons)
  from Cons.IH[OF rest, of "pre @ fst e @ encode (snd e)"]
  have ih: "SearchEncodedAnnotation_loop dex_file ?bs name (length es + k)
        (length pre + length (fst e) + length (encode (snd e)))
      = SearchEncodedAnnotation_loop dex_file ?bs name k
        (length pre + length (encode_elements (e # es)))"
    unfolding b2 by (simp add: encode_elements_Cons add.assoc)
  have "SearchEncodedAnnotation_loop dex_file ?bs name (Suc (length es + k)) (length pre)
      = SearchEncodedAnnotation_loop dex_file ?bs name (length es + k)
        (length pre + length (fst e) + length (encode (snd e)))"
    using d s ne by simp
  with ih show ?case by simp
qed

text \<open>
  C4. A body laid out by the grammar: the varints of the type index and of the element
  count, some elements that are well formed and are not named \<open>name\<close>, and then
  either an element named \<open>name\<close>, followed by any bytes, or nothing more of the
  counted elements. In the first case the search returns the cursor just after the
  name index of that element, where its value starts; in the second it returns
  not-found.
\<close>

theorem element_scan_first_match:
  assumes "leb_read type_bytes = Some type_index"
    and "leb_read count_bytes = Some count"
    and "list_all (\<lambda>element. spec_element_name dex_file (fst element) \<notin> {None, Some name}
                                 \<and> well_formed dex_file (snd element)) skipped"
  shows "(length skipped < unat count \<and> spec_element_name dex_file name_bytes = Some name
          \<longrightarrow> SearchEncodedAnnotation dex_file
                (pre @ type_bytes @ count_bytes @ encode_elements skipped @ name_bytes @ rest)
                (length pre) name
              = Inr (Some (length pre + length type_bytes + length count_bytes
                           + length (encode_elements skipped) + length name_bytes)))
       \<and> (length skipped = unat count
          \<longrightarrow> SearchEncodedAnnotation dex_file
                (pre @ type_bytes @ count_bytes @ encode_elements skipped @ rest)
                (length pre) name
              = Inr None)"
proof (intro conjI impI)
  assume a: "length skipped < unat count \<and> spec_element_name dex_file name_bytes = Some name"
  let ?bs = "pre @ type_bytes @ count_bytes @ encode_elements skipped @ name_bytes @ rest"
  from a have sn: "spec_element_name dex_file name_bytes = Some name" by (rule conjunct2)
  from a have lt: "length skipped < unat count" by (rule conjunct1)
  from sn obtain n where n: "leb_read name_bytes = Some n" and nm: "GetStringData dex_file n = name"
    by (auto simp: spec_element_name_def)
  from less_imp_Suc_add[OF lt] obtain k where k: "unat count = Suc (length skipped + k)"
    by blast
  from leb_read_local[OF assms(1), of pre "count_bytes @ encode_elements skipped @ name_bytes @ rest"]
  have d1: "DecodeUnsignedLeb128 ?bs (length pre) = Inr (type_index, length pre + length type_bytes)" .
  have b1: "?bs = (pre @ type_bytes) @ count_bytes @ (encode_elements skipped @ name_bytes @ rest)"
    by simp
  from leb_read_local[OF assms(2), of "pre @ type_bytes" "encode_elements skipped @ name_bytes @ rest"]
  have d2: "DecodeUnsignedLeb128 ?bs (length pre + length type_bytes)
      = Inr (count, length pre + length type_bytes + length count_bytes)"
    unfolding b1 by simp
  have b2: "?bs = (pre @ type_bytes @ count_bytes) @ encode_elements skipped @ (name_bytes @ rest)"
    by simp
  from SearchEncodedAnnotation_loop_skipped[OF assms(3), of "pre @ type_bytes @ count_bytes"
      "name_bytes @ rest" "Suc k"]
  have l: "SearchEncodedAnnotation_loop dex_file ?bs name (length skipped + Suc k)
        (length pre + length type_bytes + length count_bytes)
      = SearchEncodedAnnotation_loop dex_file ?bs name (Suc k)
        (length pre + length type_bytes + length count_bytes + length (encode_elements skipped))"
    unfolding b2 by (simp add: add.assoc)
  have b3: "?bs = (pre @ type_bytes @ count_bytes @ encode_elements skipped) @ name_bytes @ rest"
    by simp
  from leb_read_local[OF n, of "pre @ type_bytes @ count_bytes @ encode_elements skipped" rest]
  have d3: "DecodeUnsignedLeb128 ?bs
        (length pre + length type_bytes + length count_bytes + length (encode_elements skipped))
      = Inr (n, length pre + length type_bytes + length count_bytes
                + length (encode_elements skipped) + length name_bytes)"
    unfolding b3 by (simp add: add.assoc)
  show "SearchEncodedAnnotation dex_file ?bs (length pre) name
      = Inr (Some (length pre + length type_bytes + length count_bytes
                   + length (encode_elements skipped) + length name_bytes))"
    unfolding SearchEncodedAnnotation_def using d1 d2 l d3 nm k by simp
next
  assume a: "length skipped = unat count"
  let ?bs = "pre @ type_bytes @ count_bytes @ encode_elements skipped @ rest"
  from leb_read_local[OF assms(1), of pre "count_bytes @ encode_elements skipped @ rest"]
  have d1: "DecodeUnsignedLeb128 ?bs (length pre) = Inr (type_index, length pre + length type_bytes)" .
  have b1: "?bs = (pre @ type_bytes) @ count_bytes @ (encode_elements skipped @ rest)"
    by simp
  from leb_read_local[OF assms(2), of "pre @ type_bytes" "encode_elements skipped @ rest"]
  have d2: "DecodeUnsignedLeb128 ?bs (length pre + length type_bytes)
      = Inr (count, length pre + length type_bytes + length count_bytes)"
    unfolding b1 by simp
  have b2: "?bs = (pre @ type_bytes @ count_bytes) @ encode_elements skipped @ rest"
    by simp
  from SearchEncodedAnnotation_loop_skipped[OF assms(3), of "pre @ type_bytes @ count_bytes"
      rest 0]
  have l: "SearchEncodedAnnotation_loop dex_file ?bs name (length skipped)
        (length pre + length type_bytes + length count_bytes)
      = Inr None"
    unfolding b2 by (simp add: add.assoc)
  show "SearchEncodedAnnotation dex_file ?bs (length pre) name = Inr None"
    unfolding SearchEncodedAnnotation_def using d1 d2 l a by simp
qed

lemma example_leb_read:
  "leb_read [0x00] = Some 0" "leb_read [0x01] = Some 1"
  "leb_read [0x02] = Some 2" "leb_read [0x03] = Some 3"
  by code_simp+

lemma example_element_name:
  "spec_element_name example_dex_file [0x00] = Some ''a''"
  "spec_element_name example_dex_file [0x01] = Some ''b''"
  by (simp_all add: spec_element_name_def example_leb_read example_dex_file_def)

lemma example_well_formed:
  "well_formed example_dex_file (SpecScalar 0x04 [0x01])"
  "well_formed example_dex_file (SpecScalar 0x04 [0x02])"
  "well_formed example_dex_file (SpecScalar 0x04 [0x03])"
  "well_formed example_dex_file
     (SpecArray 0x1c [0x02]
        [SpecScalar 0x24 [0x01, 0x00],
         SpecAnnotation 0x1d [0x00] [0x01] [([0x01], SpecEmpty 0x1f)]])"
  by (simp_all add: spec_kind_def spec_width_def example_dex_file_def
      dex_format_value_type_of_def example_leb_read drop_bit_eq_div)

theorem element_scan_first_match_witness:
  "leb_read [0x00] = Some 0 \<and> leb_read [0x03] = Some 3 \<and> leb_read [0x02] = Some 2
   \<and> list_all (\<lambda>element. spec_element_name example_dex_file (fst element) \<notin> {None, Some ''b''}
                           \<and> well_formed example_dex_file (snd element))
         [([0x00], SpecScalar 0x04 [0x01])]
   \<and> length [([0x00 :: byte], SpecScalar 0x04 [0x01])] < unat (3 :: 32 word)
   \<and> spec_element_name example_dex_file [0x01] = Some ''b''
   \<and> SearchEncodedAnnotation example_dex_file example_body 0 ''b'' = Inr (Some 6)
   \<and> SearchEncodedAnnotation example_dex_file example_body 0 ''a'' = Inr (Some 3)
   \<and> list_all (\<lambda>element. spec_element_name example_dex_file (fst element) \<notin> {None, Some ''c''}
                           \<and> well_formed example_dex_file (snd element))
         [([0x00], SpecScalar 0x04 [0x01]), ([0x01], SpecScalar 0x04 [0x02]),
          ([0x00], SpecScalar 0x04 [0x03])]
   \<and> length [([0x00 :: byte], SpecScalar 0x04 [0x01]), ([0x01], SpecScalar 0x04 [0x02]),
          ([0x00], SpecScalar 0x04 [0x03])] = unat (3 :: 32 word)
   \<and> SearchEncodedAnnotation example_dex_file example_body 0 ''c'' = Inr None
   \<and> SearchEncodedAnnotation example_dex_file example_nested_body 0 ''a'' = Inr (Some 14)
   \<and> ProcessAnnotationValue example_klass (example_runtime 23) example_body 3
        new_AnnotationValue None kAllRaw example_world
       = Inr (True, 5, \<lparr>av_value = JI 1, av_type = 0x04\<rparr>, example_world)"
proof -
  note facts = example_leb_read example_element_name example_well_formed
  have sb: "list_all (\<lambda>element. spec_element_name example_dex_file (fst element) \<notin> {None, Some ''b''}
                           \<and> well_formed example_dex_file (snd element))
         [([0x00], SpecScalar 0x04 [0x01])]"
    by (simp add: facts del: well_formed.simps)
  have sa: "list_all (\<lambda>element. spec_element_name example_dex_file (fst element) \<notin> {None, Some ''a''}
                           \<and> well_formed example_dex_file (snd element)) []"
    by simp
  have sc: "list_all (\<lambda>element. spec_element_name example_dex_file (fst element) \<notin> {None, Some ''c''}
                           \<and> well_formed example_dex_file (snd element))
         [([0x00], SpecScalar 0x04 [0x01]), ([0x01], SpecScalar 0x04 [0x02]),
          ([0x00], SpecScalar 0x04 [0x03])]"
    by (simp add: facts del: well_formed.simps)
  have sn: "list_all (\<lambda>element. spec_element_name example_dex_file (fst element) \<notin> {None, Some ''a''}
                           \<and> well_formed example_dex_file (snd element))
         [([0x01], SpecArray 0x1c [0x02]
             [SpecScalar 0x24 [0x01, 0x00],
              SpecAnnotation 0x1d [0x00] [0x01] [([0x01], SpecEmpty 0x1f)]])]"
    by (simp add: facts del: well_formed.simps)
  have b: "SearchEncodedAnnotation example_dex_file example_body 0 ''b'' = Inr (Some 6)"
    using element_scan_first_match [OF example_leb_read(1) example_leb_read(4) sb,
        where name_bytes = "[0x01]" and pre = "[]" and rest = "[0x04, 0x02, 0x00, 0x04, 0x03]"]
    by (simp add: facts encode_elements_def example_body_def)
  have a: "SearchEncodedAnnotation example_dex_file example_body 0 ''a'' = Inr (Some 3)"
    using element_scan_first_match [OF example_leb_read(1) example_leb_read(4) sa,
        where name_bytes = "[0x00]" and pre = "[]"
          and rest = "[0x04, 0x01, 0x01, 0x04, 0x02, 0x00, 0x04, 0x03]"]
    by (simp add: facts encode_elements_def example_body_def)
  have c: "SearchEncodedAnnotation example_dex_file example_body 0 ''c'' = Inr None"
    using element_scan_first_match [OF example_leb_read(1) example_leb_read(4) sc,
        where pre = "[]" and rest = "[]"]
    by (simp add: facts encode_elements_def example_body_def)
  have n: "SearchEncodedAnnotation example_dex_file example_nested_body 0 ''a'' = Inr (Some 14)"
    using element_scan_first_match [OF example_leb_read(1) example_leb_read(3) sn,
        where name_bytes = "[0x00]" and pre = "[]" and rest = "[0x04, 0x03]"]
    by (simp add: facts encode_elements_def example_nested_body_def)
  have v: "ProcessAnnotationValue example_klass (example_runtime 23) example_body 3
        new_AnnotationValue None kAllRaw example_world
       = Inr (True, 5, \<lparr>av_value = JI 1, av_type = 0x04\<rparr>, example_world)" by code_simp
  show ?thesis using sb sc a b c n v by (simp add: facts del: well_formed.simps)
qed

subsection \<open>The example inputs\<close>

lemma example_runtime_sel:
  "GetTargetSdkVersion (example_runtime s) = s"
  "SdkVersion_kUnset (example_runtime s) = 0"
  "SdkVersion_kM (example_runtime s) = 23"
  "IsConstructor (example_runtime s) m = False"
  "Constructor_CreateFromArtMethod (example_runtime s) m = Inr (ObjectRef (1000 + m))"
  "Method_CreateFromArtMethod (example_runtime s) m = Inr (ObjectRef (2000 + m))"
  "Field_CreateFromArtField (example_runtime s) f = Inr (ObjectRef (3000 + f))"
  "GetDeclaringClass (example_runtime s) f = ReferenceClass f"
  "EnsureInitialized (example_runtime s) c = None"
  "GetObject (example_runtime s) f = Some (ObjectRef (4000 + f))"
  "Array_Alloc (example_runtime s) c n = None"
  "BoxPrimitive (example_runtime s) p v = Some (ObjectRef 5000)"
  "ThrowNewWrappedException (example_runtime s) d msg cause = ObjectRef 6000"
  "AnnotationMember_array_class (example_runtime s) = Some (ArrayClass (ReferenceClass 7000))"
  "Annotation_array_class (example_runtime s) = ArrayClass (ReferenceClass 7001)"
  "FindDeclaredVirtualMethodByName (example_runtime s) c name = Some (length name)"
  "AllocFromModifiedUtf8 (example_runtime s) name = Inr (ObjectRef (8000 + length name))"
  "ResolveReturnType (example_runtime s) m = Inr (ArrayClass (PrimitiveClass kPrimInt))"
  "AnnotationMember_init (example_runtime s) sn val ret mo = Inr (ObjectRef 9000)"
  "createAnnotation (example_runtime s) c elements = Inr (Some (ObjectRef 9001))"
  by (simp_all add: example_runtime_def)

lemma example_klass_sel:
  "GetDexFile example_klass = example_dex_file"
  "ResolveString example_klass i = Inr (ObjectRef (unat i))"
  "ResolveType example_klass i =
     (if i = 7 then Inl (ObjectRef 404) else Inr (ReferenceClass (unat i)))"
  "ResolveMethodId example_klass i = Inr (unat i)"
  "ResolveFieldJLS example_klass i = Inr (unat i)"
  "ResolveField example_klass i = Inr (unat i)"
  by (simp_all add: example_klass_def)

lemma example_dex_file_sel:
  "value_type_of example_dex_file t = dex_format_value_type_of t"
  "GetStringData example_dex_file i =
     (if i = 0 then ''a'' else if i = 1 then ''b'' else ''value'')"
  "GetTypeDescriptor example_dex_file i = (if i = 0 then ''LFoo;'' else ''LBar;'')"
  by (simp_all add: example_dex_file_def)

lemmas example_sel = example_runtime_sel example_klass_sel example_dex_file_sel
  dex_format_value_type_of_def

lemmas lazy_cong = sum.case_cong_weak option.case_cong_weak prod.case_cong_weak if_weak_cong

lemma decode_leb_numeral:
  "decode_leb (numeral k) bs ptr =
     (case read_byte bs ptr of Inl e \<Rightarrow> Inl e
      | Inr cur \<Rightarrow>
          if cur > 0x7f then
            (case decode_leb (pred_numeral k) bs (ptr + 1) of Inl e \<Rightarrow> Inl e
             | Inr (hi, ptr') \<Rightarrow> Inr (ucast (cur AND 0x7f) OR push_bit 7 hi, ptr'))
          else Inr (ucast cur, ptr + 1))"
  using decode_leb.simps(2) [of "pred_numeral k" bs ptr] by (simp add: numeral_eq_Suc)

lemmas decode_defs = DecodeUnsignedLeb128_def decode_leb_numeral read_byte_def

lemma ProcessEncodedAnnotation_unfold:
  "ProcessEncodedAnnotation klass rt bs annotation w =
     ProcessEncodedAnnotation_with
       (ProcessAnnotationValue_body
          (ProcessAnnotationValue_fuel (length bs - annotation) klass rt bs) klass rt bs)
       klass rt bs annotation w"
  by (simp add: ProcessEncodedAnnotation_def)

subsection \<open>A header byte with an unknown tag\<close>






subsection \<open>All annotations of one visibility\<close>

lemma ProcessAnnotationSet_loop_other:
  "ucast (item_visibility annotation_item) \<noteq> visibility \<Longrightarrow>
   ProcessAnnotationSet_loop klass rt (annotation_item # items) visibility objs w =
     ProcessAnnotationSet_loop klass rt items visibility objs w"
  by simp

lemma ProcessAnnotationSet_loop_filter:
  "ProcessAnnotationSet_loop klass rt items visibility objs w =
     ProcessAnnotationSet_loop klass rt
       (filter (\<lambda>item. ucast (item_visibility item) = visibility) items) visibility objs w"
proof (induction items arbitrary: objs w)
  case Nil
  show ?case by simp
next
  case (Cons annotation_item items)
  show ?case
  proof (cases "ucast (item_visibility annotation_item) = visibility")
    case False
    then show ?thesis using Cons.IH [of objs w] by simp
  next
    case True
    then show ?thesis
      using Cons.IH
      by (auto split: sum.splits prod.splits option.splits)
  qed
qed

text \<open>
  C10. \<^verbatim>\<open>ProcessAnnotationSet\<close> decodes the records whose visibility byte equals the
  requested visibility and no other: its loop gives the same result, objects and world,
  on the set from which every other record has been removed, and the array it returns
  holds the objects of that loop. A set of Build records yields, for the Runtime
  visibility, no object and no call of the decoder, in whatever mode; in the legacy
  mode the compatibility relation of the search accepts a Build record for Runtime.
\<close>

theorem full_set_strict_visibility:
  "ProcessAnnotationSet_loop klass rt items visibility objs w =
     ProcessAnnotationSet_loop klass rt
       (filter (\<lambda>item. ucast (item_visibility item) = visibility) items) visibility objs w
   \<and> (ProcessAnnotationSet klass rt (Some items) visibility w = Inr (Some result, w')
        \<longrightarrow> (\<exists>objs. result = ArrayObject (Annotation_array_class rt)
                                (map (\<lambda>obj. JL (Some obj)) objs)
                  \<and> ProcessAnnotationSet_loop klass rt
                       (filter (\<lambda>item. ucast (item_visibility item) = visibility) items)
                       visibility [] w = Inr (Some objs, w')))
   \<and> ((\<forall>item \<in> set items. ucast (item_visibility item) = kDexVisibilityBuild)
        \<longrightarrow> ProcessAnnotationSet_loop klass rt items kDexVisibilityRuntime objs w
              = Inr (Some objs, w))
   \<and> (IsSdkVersionSetAndAtMost rt (GetTargetSdkVersion rt) (SdkVersion_kM rt)
        \<longrightarrow> IsVisibilityCompatible rt kDexVisibilityBuild kDexVisibilityRuntime)"
proof (intro conjI impI)
  let ?keep = "filter (\<lambda>item. ucast (item_visibility item) = visibility) items"
  show f: "ProcessAnnotationSet_loop klass rt items visibility objs w =
     ProcessAnnotationSet_loop klass rt ?keep visibility objs w" for objs
    by (rule ProcessAnnotationSet_loop_filter)
  show "\<exists>objs. result = ArrayObject (Annotation_array_class rt)
                                (map (\<lambda>obj. JL (Some obj)) objs)
                  \<and> ProcessAnnotationSet_loop klass rt ?keep visibility [] w = Inr (Some objs, w')"
    if "ProcessAnnotationSet klass rt (Some items) visibility w = Inr (Some result, w')"
    using that unfolding f [of "[]", symmetric]
    by (auto simp: ProcessAnnotationSet_def Let_def
        split: option.splits sum.splits prod.splits if_splits)
  show "ProcessAnnotationSet_loop klass rt items kDexVisibilityRuntime objs w
              = Inr (Some objs, w)"
    if "\<forall>item \<in> set items. ucast (item_visibility item) = kDexVisibilityBuild"
  proof -
    have "filter (\<lambda>item. ucast (item_visibility item) = kDexVisibilityRuntime) items = []"
      using that by (auto simp: filter_empty_conv kDexVisibilityBuild_def kDexVisibilityRuntime_def)
    then show ?thesis
      using ProcessAnnotationSet_loop_filter [of klass rt items kDexVisibilityRuntime objs w]
      by simp
  qed
  show "IsVisibilityCompatible rt kDexVisibilityBuild kDexVisibilityRuntime"
    if "IsSdkVersionSetAndAtMost rt (GetTargetSdkVersion rt) (SdkVersion_kM rt)"
    using that by (simp add: IsVisibilityCompatible_def)
qed


theorem full_set_strict_visibility_witness:
  "IsSdkVersionSetAndAtMost (example_runtime 23) (GetTargetSdkVersion (example_runtime 23))
       (SdkVersion_kM (example_runtime 23))
   \<and> IsVisibilityCompatible (example_runtime 23) kDexVisibilityBuild kDexVisibilityRuntime
   \<and> SearchAnnotationSet (example_runtime 23) example_dex_file
        [example_item 0x00 0, example_item 0x01 1] ''LFoo;'' kDexVisibilityRuntime
      = Inr (Some (example_item 0x00 0))
   \<and> ProcessAnnotationSet example_klass (example_runtime 23)
        (Some [example_item 0x00 0, example_item 0x01 1]) kDexVisibilityRuntime example_world
      = Inr (Some (ArrayObject (ArrayClass (ReferenceClass 7001)) [JL (Some (ObjectRef 9001))]),
             \<lparr>exception = None, resolver_calls = [CallResolveType 1]\<rparr>)
   \<and> ProcessAnnotationSet_loop example_klass (example_runtime 23)
        [example_item 0x01 1] kDexVisibilityRuntime [] example_world
      = Inr (Some [ObjectRef 9001], \<lparr>exception = None, resolver_calls = [CallResolveType 1]\<rparr>)
   \<and> ProcessAnnotationSet_loop example_klass (example_runtime 23)
        [example_item 0x00 0, example_item 0x00 1] kDexVisibilityRuntime [] example_world
      = Inr (Some [], example_world)
   \<and> ProcessAnnotationSet example_klass (example_runtime 23)
        (Some [example_item 0x00 0, example_item 0x00 1]) kDexVisibilityRuntime example_world
      = Inr (Some (ArrayObject (ArrayClass (ReferenceClass 7001)) []), example_world)"
proof -
  let ?rt = "example_runtime 23"
  let ?bs = "[0x01, 0x00] :: byte list"
  let ?items = "[example_item 0x00 0, example_item 0x01 1]"
  let ?build = "[example_item 0x00 0, example_item 0x00 1]"
  let ?w = "\<lparr>exception = None, resolver_calls = [CallResolveType 1]\<rparr>"
  note vis = kDexVisibilityBuild_def kDexVisibilityRuntime_def
  have sdk: "IsSdkVersionSetAndAtMost ?rt (GetTargetSdkVersion ?rt) (SdkVersion_kM ?rt)"
    by (simp add: IsSdkVersionSetAndAtMost_def example_runtime_sel)
  have d: "DecodeUnsignedLeb128 ?bs 0 = Inr (1, Suc 0)"
    "DecodeUnsignedLeb128 ?bs (Suc 0) = Inr (0, 2)"
    by (simp_all add: decode_defs)
  have e: "ProcessEncodedAnnotation example_klass ?rt ?bs 0
      \<lparr>exception = None, resolver_calls = []\<rparr> = Inr (Some (ObjectRef 9001), 2, ?w)"
    by (simp add: ProcessEncodedAnnotation_unfold ProcessEncodedAnnotation_with_def d
        example_sel service_def resolve_def cong: lazy_cong)
  have keep: "filter (\<lambda>item. ucast (item_visibility item) = kDexVisibilityRuntime) ?items
      = [example_item 0x01 1]"
    by (simp add: example_item_sel vis)
  have ann: "item_annotation (example_item 0x01 1) = ?bs"
    by (simp add: example_item_def)
  have one: "ProcessAnnotationSet_loop example_klass ?rt [example_item 0x01 1]
      kDexVisibilityRuntime [] example_world = Inr (Some [ObjectRef 9001], ?w)"
    by (simp add: example_item_visibility ann vis e example_world_def)
  have all_build: "\<forall>item \<in> set ?build. ucast (item_visibility item) = kDexVisibilityBuild"
    by (simp add: example_item_sel vis)
  note t = full_set_strict_visibility [where klass = example_klass and rt = ?rt
      and w = example_world and objs = "[]"]
  from t [where items = ?items and visibility = kDexVisibilityRuntime] keep one
  have loop: "ProcessAnnotationSet_loop example_klass ?rt ?items kDexVisibilityRuntime []
      example_world = Inr (Some [ObjectRef 9001], ?w)"
    by simp
  from t [where items = ?build] all_build
  have none: "ProcessAnnotationSet_loop example_klass ?rt ?build kDexVisibilityRuntime []
      example_world = Inr (Some [], example_world)"
    by blast
  from t sdk
  have compat: "IsVisibilityCompatible ?rt kDexVisibilityBuild kDexVisibilityRuntime"
    by blast
  have search: "SearchAnnotationSet ?rt example_dex_file ?items ''LFoo;'' kDexVisibilityRuntime
      = Inr (Some (example_item 0x00 0))"
    using compat
    by (simp add: SearchAnnotationSet_exact example_item_sel example_dex_file_sel
        kDexVisibilityBuild_def)
  have full: "ProcessAnnotationSet example_klass ?rt (Some ?items) kDexVisibilityRuntime
      example_world = Inr (Some (ArrayObject (ArrayClass (ReferenceClass 7001))
        [JL (Some (ObjectRef 9001))]), ?w)"
    by (simp add: ProcessAnnotationSet_def loop example_runtime_sel
        del: ProcessAnnotationSet_loop.simps)
  have empty: "ProcessAnnotationSet example_klass ?rt (Some ?build) kDexVisibilityRuntime
      example_world = Inr (Some (ArrayObject (ArrayClass (ReferenceClass 7001)) []),
        example_world)"
    by (simp add: ProcessAnnotationSet_def none example_runtime_sel
        del: ProcessAnnotationSet_loop.simps)
  show ?thesis using sdk compat search full one none empty by blast
qed

subsection \<open>The visitor and a callback that returns kVisitBreak\<close>






















end
